theory Spec2Isabelle
  imports Complex_Main "HOL-Library.Sublist" "HOL-Library.Log_Nat"
begin

section \<open>Values exchanged with the JavaScript runtime\<close>

text \<open>
  The application (\<^verbatim>\<open>App.tsx\<close>, \<^verbatim>\<open>components/DrawingBoard.tsx\<close>) passes
  untyped data through \<^verbatim>\<open>JSON.parse\<close> and \<^verbatim>\<open>JSON.stringify\<close>. A parsed value is a
  \<open>json\<close>; a property that is absent reads as \<^verbatim>\<open>undefined\<close>, which is \<open>None\<close> of
  \<open>json option\<close>. An object is the list of its own properties in insertion order
  (keys distinct). Numbers are real numbers: the non-finite doubles are not represented.

  \<^verbatim>\<open>JSON.parse\<close>, \<^verbatim>\<open>JSON.stringify\<close> and the two functions of the
  \<^verbatim>\<open>lz-string\<close> package are not code of the repository; every function that calls
  one of them takes it as an argument, \<open>None\<close> standing for a thrown \<^verbatim>\<open>SyntaxError\<close>
  (\<^verbatim>\<open>JSON.parse\<close>) or for \<^verbatim>\<open>null\<close> (\<^verbatim>\<open>decompressFromBase64\<close>).
\<close>

datatype json =
    JNull
  | JBool bool
  | JNum real
  | JStr string
  | JArr "json list"
  | JObj "(string \<times> json) list"

datatype error = SyntaxError | TypeError | OperationError

type_synonym parser = "string \<Rightarrow> json option"
type_synonym printer = "json \<Rightarrow> string"

text \<open>
  \<^verbatim>\<open>v.k\<close> for the property names the application reads (\<^verbatim>\<open>timestamp\<close>,
  \<^verbatim>\<open>mode\<close>, \<^verbatim>\<open>role\<close>, \<^verbatim>\<open>code\<close>, \<^verbatim>\<open>type\<close>, \<^verbatim>\<open>stroke\<close>,
  \<^verbatim>\<open>localOffer\<close>, \<^verbatim>\<open>remoteAnswer\<close>): reading a property of \<^verbatim>\<open>null\<close> throws a
  \<^verbatim>\<open>TypeError\<close>, a primitive or an array has none of these properties, an object is
  looked up.
\<close>

fun getProp :: "json \<Rightarrow> string \<Rightarrow> error + json option" where
  "getProp JNull k = Inl TypeError"
| "getProp (JObj fs) k = Inr (map_of fs k)"
| "getProp v k = Inr None"

text \<open>Truthiness of a value, as tested by \<^verbatim>\<open>if (v)\<close>, \<^verbatim>\<open>v && w\<close> and \<^verbatim>\<open>v || w\<close>.\<close>

fun truthy :: "json option \<Rightarrow> bool" where
  "truthy None = False"
| "truthy (Some JNull) = False"
| "truthy (Some (JBool b)) = b"
| "truthy (Some (JNum n)) = (n \<noteq> 0)"
| "truthy (Some (JStr s)) = (s \<noteq> [])"
| "truthy (Some v) = True"

text \<open>
  \<^verbatim>\<open>ToNumber\<close>, applied by the subtraction \<^verbatim>\<open>Date.now() - session.timestamp\<close>.
  \<open>None\<close> is \<^verbatim>\<open>NaN\<close>. The conversion of strings, arrays and objects is the runtime's
  and is the argument \<open>cv\<close>.
\<close>

fun toNumber :: "(json \<Rightarrow> real option) \<Rightarrow> json option \<Rightarrow> real option" where
  "toNumber cv None = None"
| "toNumber cv (Some JNull) = Some 0"
| "toNumber cv (Some (JBool b)) = Some (if b then 1 else 0)"
| "toNumber cv (Some (JNum n)) = Some n"
| "toNumber cv (Some v) = cv v"

text \<open>\<^verbatim>\<open>a < b\<close> on numbers: false as soon as one side is \<^verbatim>\<open>NaN\<close>.\<close>

fun num_less :: "real option \<Rightarrow> real option \<Rightarrow> bool" where
  "num_less (Some a) (Some b) = (a < b)"
| "num_less a b = False"

fun num_minus :: "real option \<Rightarrow> real option \<Rightarrow> real option" where
  "num_minus (Some a) (Some b) = Some (a - b)"
| "num_minus a b = None"

text \<open>Decimal rendering of an integer, \<^verbatim>\<open>Number.prototype.toString\<close> on an integral value.\<close>

fun digits :: "nat \<Rightarrow> string" where
  "digits n = (if n < 10 then [''0123456789'' ! n]
               else digits (n div 10) @ [''0123456789'' ! (n mod 10)])"

declare digits.simps [simp del]

definition toString :: "int \<Rightarrow> string" where
  "toString i = (if i < 0 then CHR ''-'' # digits (nat (- i)) else digits (nat i))"

text \<open>\<^verbatim>\<open>s.endsWith(suf)\<close>.\<close>

definition endsWith :: "string \<Rightarrow> string \<Rightarrow> bool" where
  "endsWith s suf = (length suf \<le> length s \<and> drop (length s - length suf) s = suf)"

section \<open>Session persistence (App.tsx, lines 19-123)\<close>

datatype ViewState = HOME | HOST_LOBBY | JOIN_LOBBY | MANUAL_HOST | MANUAL_JOIN | GAME
datatype Role = HOST | JOINER
datatype Mode = CLOUD | MANUAL

fun Role_str :: "Role \<Rightarrow> string" where
  "Role_str HOST = ''HOST''"
| "Role_str JOINER = ''JOINER''"

fun Mode_str :: "Mode \<Rightarrow> string" where
  "Mode_str CLOUD = ''CLOUD''"
| "Mode_str MANUAL = ''MANUAL''"

text \<open>\<^verbatim>\<open>localStorage\<close>: a map from keys to strings.\<close>

type_synonym storage = "string \<rightharpoonup> string"

text \<open>The object literal \<^verbatim>\<open>{ mode, role, code, timestamp: Date.now() }\<close> of type \<^verbatim>\<open>SessionData\<close>.\<close>

definition SessionData :: "Mode \<Rightarrow> Role \<Rightarrow> string \<Rightarrow> int \<Rightarrow> json" where
  "SessionData mode role code timestamp =
     JObj [(''mode'', JStr (Mode_str mode)), (''role'', JStr (Role_str role)),
           (''code'', JStr code), (''timestamp'', JNum (of_int timestamp))]"

text \<open>\<open>now\<close> is the value \<^verbatim>\<open>Date.now()\<close> returns during the call, in milliseconds.\<close>

definition saveSession :: "printer \<Rightarrow> int \<Rightarrow> Mode \<Rightarrow> Role \<Rightarrow> string \<Rightarrow> storage \<Rightarrow> storage" where
  "saveSession stringify now mode role code ls =
     ls(''chkobba_session'' \<mapsto> stringify (SessionData mode role code now))"

definition clearSession :: "storage \<Rightarrow> storage" where
  "clearSession ls = (ls(''chkobba_session'' := None))(''chkobba_manual_state'' := None)"

text \<open>
  The effect of lines 119-123, run when \<^verbatim>\<open>localOffer\<close>, \<^verbatim>\<open>remoteAnswer\<close> or
  \<^verbatim>\<open>view\<close> changed.
\<close>

definition saveManualState :: "printer \<Rightarrow> ViewState \<Rightarrow> string \<Rightarrow> string \<Rightarrow> storage \<Rightarrow> storage" where
  "saveManualState stringify view localOffer remoteAnswer ls =
     (if view = MANUAL_HOST \<or> view = MANUAL_JOIN
      then ls(''chkobba_manual_state'' \<mapsto>
                stringify (JObj [(''localOffer'', JStr localOffer), (''remoteAnswer'', JStr remoteAnswer)]))
      else ls)"

text \<open>
  The restore effect run on mount (lines 71-109). The values it hands on come out of
  \<^verbatim>\<open>JSON.parse\<close> unchecked, so the effect is modelled by the list of calls it makes, in
  order, with their arguments as untyped values. \<open>SetTimeout_connect host c\<close> is the timer
  of line 85, whose callback calls \<^verbatim>\<open>connectCloudHost(c)\<close> when \<open>host\<close> holds and
  \<^verbatim>\<open>connectCloudJoiner(c)\<close> otherwise.
\<close>

datatype call =
    RemoveItem string
  | SetShortCode "json option"
  | SetInputCode "json option"
  | SetIsReconnecting bool
  | SetTimeout_connect bool "json option"
  | SetLocalOffer "json option"
  | SetRemoteAnswer "json option"
  | SetView ViewState

definition clearSession_calls :: "call list" where
  "clearSession_calls = [RemoveItem ''chkobba_session'', RemoveItem ''chkobba_manual_state'']"

text \<open>\<^verbatim>\<open>v || ''\<close>.\<close>

definition or_empty :: "json option \<Rightarrow> json option" where
  "or_empty v = (if truthy v then v else Some (JStr []))"

text \<open>\<^verbatim>\<open>v.k\<close> on a value \<open>v\<close> that an earlier read has shown not to be \<^verbatim>\<open>null\<close>.\<close>

definition field :: "json \<Rightarrow> string \<Rightarrow> json option" where
  "field v k = (case getProp v k of Inl e \<Rightarrow> None | Inr x \<Rightarrow> x)"

text \<open>
  The body of the \<^verbatim>\<open>try\<close> block, from line 75 on: \<open>Inl\<close> is an exception thrown
  out of it. No call has been made when one is thrown: the throwing expressions
  (\<^verbatim>\<open>JSON.parse\<close>, and the first property read of a parsed value, which may be
  \<^verbatim>\<open>null\<close>) come before the first call of their branch.
\<close>

definition restore_manual :: "parser \<Rightarrow> storage \<Rightarrow> json \<Rightarrow> error + call list" where
  "restore_manual parse ls session =
     (case ls ''chkobba_manual_state'' of
        None \<Rightarrow> Inr []
      | Some manualState \<Rightarrow>
         if manualState = [] then Inr []
         else
           (case parse manualState of
              None \<Rightarrow> Inl SyntaxError
            | Some parsed \<Rightarrow>
               (case getProp parsed ''localOffer'' of
                  Inl e \<Rightarrow> Inl e
                | Inr lo \<Rightarrow>
                   Inr [SetLocalOffer (or_empty lo),
                        SetRemoteAnswer (or_empty (field parsed ''remoteAnswer'')),
                        SetView (if field session ''role'' = Some (JStr ''HOST'')
                                 then MANUAL_HOST else MANUAL_JOIN)])))"

definition restore_try :: "parser \<Rightarrow> (json \<Rightarrow> real option) \<Rightarrow> int \<Rightarrow> storage \<Rightarrow> string \<Rightarrow> error + call list" where
  "restore_try parse cv now ls saved =
     (case parse saved of
        None \<Rightarrow> Inl SyntaxError
      | Some session \<Rightarrow>
         (case getProp session ''timestamp'' of
            Inl e \<Rightarrow> Inl e
          | Inr ts \<Rightarrow>
             if num_less (num_minus (Some (of_int now)) (toNumber cv ts)) (Some (2 * 60 * 60 * 1000))
             then
               if field session ''mode'' = Some (JStr ''CLOUD'') then
                 Inr [SetShortCode (field session ''code''), SetInputCode (field session ''code''),
                      SetIsReconnecting True,
                      SetTimeout_connect (field session ''role'' = Some (JStr ''HOST''))
                                         (field session ''code'')]
               else if field session ''mode'' = Some (JStr ''MANUAL'') then
                 restore_manual parse ls session
               else Inr []
             else Inr clearSession_calls))"

definition restoreSession :: "parser \<Rightarrow> (json \<Rightarrow> real option) \<Rightarrow> int \<Rightarrow> storage \<Rightarrow> call list" where
  "restoreSession parse cv now ls =
     (case ls ''chkobba_session'' of
        None \<Rightarrow> []
      | Some saved \<Rightarrow>
         if saved = [] then []
         else (case restore_try parse cv now ls saved of
                 Inl e \<Rightarrow> clearSession_calls
               | Inr cs \<Rightarrow> cs))"

text \<open>The storage after the calls have run: only \<^verbatim>\<open>removeItem\<close> touches it.\<close>

fun run_storage :: "call list \<Rightarrow> storage \<Rightarrow> storage" where
  "run_storage [] ls = ls"
| "run_storage (RemoveItem k # cs) ls = run_storage cs (ls(k := None))"
| "run_storage (c # cs) ls = run_storage cs ls"

text \<open>The calls by which a stored session is acted upon, and a started reconnection.\<close>

fun is_restore :: "call \<Rightarrow> bool" where
  "is_restore (RemoveItem k) = False"
| "is_restore c = True"

fun is_reconnect :: "call \<Rightarrow> bool" where
  "is_reconnect (SetTimeout_connect h c) = True"
| "is_reconnect c = False"

text \<open>The age of a stored record at time \<open>now\<close>, when it parses and has a numeric timestamp.\<close>

definition age :: "parser \<Rightarrow> (json \<Rightarrow> real option) \<Rightarrow> int \<Rightarrow> string \<Rightarrow> real option" where
  "age parse cv now saved =
     (case parse saved of
        None \<Rightarrow> None
      | Some session \<Rightarrow>
         (case getProp session ''timestamp'' of
            Inl e \<Rightarrow> None
          | Inr ts \<Rightarrow> num_minus (Some (of_int now)) (toNumber cv ts)))"

section \<open>Application state and the peer data channel (App.tsx, lines 30-56 and 184-283)\<close>

text \<open>
  What the application observes of an \<^verbatim>\<open>RTCPeerConnection\<close>. The object is the
  browser's; a fresh one is in state \<^verbatim>\<open>stable\<close> with both descriptions \<^verbatim>\<open>null\<close>.
\<close>

record rtc =
  signalingState :: string
  localDescription :: json
  remoteDescription :: json

definition new_RTCPeerConnection :: rtc where
  "new_RTCPeerConnection =
     \<lparr>signalingState = ''stable'', localDescription = JNull, remoteDescription = JNull\<rparr>"

text \<open>
  The component's state variables and refs. \<open>readyState\<close> is
  \<^verbatim>\<open>dataChannelRef.current?.readyState\<close> (\<open>None\<close> without a channel), \<open>sent\<close> the
  strings passed to \<^verbatim>\<open>dataChannelRef.current.send\<close>, oldest first, \<open>relay\<close> whether
  \<^verbatim>\<open>mqttClientRef.current\<close> holds a client that has not been ended.
\<close>

record app =
  view :: ViewState
  status :: string
  errorMsg :: string
  shortCode :: string
  inputCode :: string
  localOffer :: string
  remoteAnswer :: string
  flash :: bool
  strokes :: "json list"
  isReconnecting :: bool
  pcRef :: "rtc option"
  readyState :: "string option"
  sent :: "string list"
  relay :: bool
  localStorage :: storage

text \<open>The state after \<^verbatim>\<open>useState\<close> and \<^verbatim>\<open>useRef\<close> have run on a page with storage \<open>ls\<close>.\<close>

definition initial :: "storage \<Rightarrow> app" where
  "initial ls =
     \<lparr>view = HOME, status = [], errorMsg = [], shortCode = [], inputCode = [], localOffer = [],
      remoteAnswer = [], flash = False, strokes = [], isReconnecting = False, pcRef = None,
      readyState = None, sent = [], relay = False, localStorage = ls\<rparr>"

text \<open>
  Own enumerable properties of a value, as copied by \<^verbatim>\<open>{...v}\<close>: those of an object,
  the indexed elements of an array, the indexed characters of a string, none of another
  primitive.
\<close>

definition indexed :: "json list \<Rightarrow> (string \<times> json) list" where
  "indexed vs = map (\<lambda>i. (toString (int i), vs ! i)) [0..<length vs]"

fun ownProps :: "json \<Rightarrow> (string \<times> json) list" where
  "ownProps (JObj fs) = fs"
| "ownProps (JArr vs) = indexed vs"
| "ownProps (JStr s) = indexed (map (\<lambda>c. JStr [c]) s)"
| "ownProps v = []"

text \<open>Assignment of one property: an existing key keeps its place.\<close>

definition setProp :: "(string \<times> json) list \<Rightarrow> string \<Rightarrow> json \<Rightarrow> (string \<times> json) list" where
  "setProp fs k v =
     (if k \<in> fst ` set fs then map (\<lambda>(k', v'). if k' = k then (k', v) else (k', v')) fs
      else fs @ [(k, v)])"

definition setProps :: "(string \<times> json) list \<Rightarrow> (string \<times> json) list \<Rightarrow> (string \<times> json) list" where
  "setProps fs gs = foldl (\<lambda>acc (k, v). setProp acc k v) fs gs"

text \<open>\<^verbatim>\<open>sendSync(type, payload)\<close>, lines 268-272; \<open>payload\<close> is the property list of the object passed.\<close>

definition sendSync :: "printer \<Rightarrow> string \<Rightarrow> (string \<times> json) list \<Rightarrow> app \<Rightarrow> app" where
  "sendSync stringify type payload s =
     (if readyState s = Some ''open''
      then s\<lparr>sent := sent s @ [stringify (JObj (setProps [(''type'', JStr type)] payload))]\<rparr>
      else s)"

definition clearBoard :: "printer \<Rightarrow> app \<Rightarrow> app" where
  "clearBoard stringify s = sendSync stringify ''CLEAR_BOARD'' [] (s\<lparr>strokes := []\<rparr>)"

definition triggerPing :: "printer \<Rightarrow> app \<Rightarrow> app" where
  "triggerPing stringify s = sendSync stringify ''PING'' [] s"

text \<open>\<^verbatim>\<open>handleIncomingPing\<close>; the timer it starts resets \<open>flash\<close> 500 ms later.\<close>

definition handleIncomingPing :: "app \<Rightarrow> app" where
  "handleIncomingPing s = s\<lparr>flash := True\<rparr>"

definition flashTimeout :: "app \<Rightarrow> app" where
  "flashTimeout s = s\<lparr>flash := False\<rparr>"

text \<open>The heartbeat of lines 141-150: the interval exists while the view is \<^verbatim>\<open>GAME\<close>.\<close>

definition heartbeat :: "printer \<Rightarrow> app \<Rightarrow> app" where
  "heartbeat stringify s =
     (if view s = GAME \<and> readyState s = Some ''open''
      then s\<lparr>sent := sent s @ [stringify (JObj [(''type'', JStr ''HEARTBEAT'')])]\<rparr>
      else s)"

text \<open>\<^verbatim>\<open>pc.onconnectionstatechange\<close> and \<^verbatim>\<open>pc.oniceconnectionstatechange\<close>, lines 219-238.\<close>

definition onconnectionstatechange :: "string \<Rightarrow> app \<Rightarrow> app" where
  "onconnectionstatechange connectionState s =
     (if connectionState = ''connected''
      then s\<lparr>status := ''Connected'', view := GAME, isReconnecting := False, relay := False\<rparr>
      else if connectionState = ''disconnected'' \<or> connectionState = ''failed''
      then s\<lparr>status := ''Disconnected. Trying to reconnect...''\<rparr>
      else s)"

definition oniceconnectionstatechange :: "string \<Rightarrow> app \<Rightarrow> app" where
  "oniceconnectionstatechange iceConnectionState s =
     (if iceConnectionState = ''disconnected'' then s\<lparr>status := ''Connection paused...''\<rparr> else s)"

text \<open>\<^verbatim>\<open>channel.onopen\<close> and \<^verbatim>\<open>channel.onmessage\<close>, lines 250-265.\<close>

definition onopen :: "app \<Rightarrow> app" where
  "onopen s = s\<lparr>status := ''Connected'', view := GAME\<rparr>"

text \<open>\<^verbatim>\<open>{ ...data.stroke, isRemote: true, color: '#22c55e' }\<close>; spreading \<^verbatim>\<open>undefined\<close> copies nothing.\<close>

definition remoteStroke :: "json option \<Rightarrow> json" where
  "remoteStroke stroke =
     JObj (setProps (case stroke of None \<Rightarrow> [] | Some v \<Rightarrow> ownProps v)
             [(''isRemote'', JBool True), (''color'', JStr ''#22c55e'')])"

text \<open>
  The body of the handler's \<^verbatim>\<open>try\<close> block; the \<^verbatim>\<open>catch\<close> clause is empty, so a
  thrown exception leaves the state as it was (nothing is assigned before a throw).
\<close>

definition onmessage_try :: "parser \<Rightarrow> string \<Rightarrow> app \<Rightarrow> error + app" where
  "onmessage_try parse e_data s =
     (case parse e_data of
        None \<Rightarrow> Inl SyntaxError
      | Some data \<Rightarrow>
         (case getProp data ''type'' of
            Inl e \<Rightarrow> Inl e
          | Inr type \<Rightarrow>
             if type = Some (JStr ''SYNC_STROKE'') \<and> truthy (field data ''stroke'')
             then Inr (s\<lparr>strokes := strokes s @ [remoteStroke (field data ''stroke'')]\<rparr>)
             else if type = Some (JStr ''CLEAR_BOARD'') then Inr (s\<lparr>strokes := []\<rparr>)
             else if type = Some (JStr ''PING'') then Inr (handleIncomingPing s)
             else Inr s))"

definition onmessage :: "parser \<Rightarrow> string \<Rightarrow> app \<Rightarrow> app" where
  "onmessage parse e_data s = (case onmessage_try parse e_data s of Inl e \<Rightarrow> s | Inr s' \<Rightarrow> s')"

text \<open>\<^verbatim>\<open>handleStrokeComplete(points)\<close>, lines 274-283; \<open>now\<close> is \<^verbatim>\<open>Date.now()\<close>.\<close>

record point =
  x :: real
  y :: real

definition Point_json :: "point \<Rightarrow> json" where
  "Point_json p = JObj [(''x'', JNum (x p)), (''y'', JNum (y p))]"

definition newStroke :: "int \<Rightarrow> point list \<Rightarrow> json" where
  "newStroke now points =
     JObj [(''id'', JStr (toString now)), (''points'', JArr (map Point_json points)),
           (''color'', JStr ''#3b82f6''), (''isRemote'', JBool False)]"

definition handleStrokeComplete :: "printer \<Rightarrow> int \<Rightarrow> point list \<Rightarrow> app \<Rightarrow> app" where
  "handleStrokeComplete stringify now points s =
     sendSync stringify ''SYNC_STROKE'' [(''stroke'', newStroke now points)]
       (s\<lparr>strokes := strokes s @ [newStroke now points]\<rparr>)"

text \<open>
  \<^verbatim>\<open>initPC()\<close>, lines 215-246, as far as the state shows it: a connection held by
  \<^verbatim>\<open>pcRef\<close> is closed and a fresh one, with the handlers above, takes its place.
\<close>

definition initPC :: "app \<Rightarrow> app" where
  "initPC s = s\<lparr>pcRef := Some new_RTCPeerConnection\<rparr>"

section \<open>The drawing board (component DrawingBoard, App.tsx lines 659-806)\<close>

text \<open>
  \<open>rect\<close> is the \<^verbatim>\<open>DOMRect\<close> that \<^verbatim>\<open>canvas.getBoundingClientRect()\<close> returns. A
  pointer event is a \<^verbatim>\<open>MouseEvent\<close> with its \<^verbatim>\<open>clientX\<close> and \<^verbatim>\<open>clientY\<close>, or a
  \<^verbatim>\<open>TouchEvent\<close> with the coordinates of its \<^verbatim>\<open>touches\<close>.
\<close>

record rect =
  rect_left :: real
  rect_top :: real
  rect_width :: real
  rect_height :: real

datatype pointer_event = MouseEvent real real | TouchEvent "(real \<times> real) list"

text \<open>
  \<^verbatim>\<open>getCoords\<close>, lines 675-694; the first argument is
  \<^verbatim>\<open>canvasRef.current\<close>, given by its rectangle. Reading \<^verbatim>\<open>e.touches[0].clientX\<close>
  with no touch throws. The division is that of the reals: on a rectangle of width or height
  zero JavaScript yields a non-finite number, which \<open>point\<close> does not represent.
\<close>

fun getCoords :: "rect option \<Rightarrow> pointer_event \<Rightarrow> error + point option" where
  "getCoords None e = Inr None"
| "getCoords (Some r) (TouchEvent []) = Inl TypeError"
| "getCoords (Some r) (TouchEvent ((clientX, clientY) # ts)) =
     Inr (Some \<lparr>x = (clientX - rect_left r) / rect_width r,
                y = (clientY - rect_top r) / rect_height r\<rparr>)"
| "getCoords (Some r) (MouseEvent clientX clientY) =
     Inr (Some \<lparr>x = (clientX - rect_left r) / rect_width r,
                y = (clientY - rect_top r) / rect_height r\<rparr>)"

record board =
  isDrawing :: bool
  currentPath :: "point list"

definition board_initial :: board where
  "board_initial = \<lparr>isDrawing = False, currentPath = []\<rparr>"

text \<open>\<^verbatim>\<open>currentPath.current.push(pt)\<close> when \<^verbatim>\<open>getCoords\<close> returned a point; a throw ends the handler.\<close>

definition push_coords :: "error + point option \<Rightarrow> board \<Rightarrow> board" where
  "push_coords r b =
     (case r of Inr (Some pt) \<Rightarrow> b\<lparr>currentPath := currentPath b @ [pt]\<rparr> | _ \<Rightarrow> b)"

definition startDrawing :: "rect option \<Rightarrow> pointer_event \<Rightarrow> board \<Rightarrow> board" where
  "startDrawing canvas e b = push_coords (getCoords canvas e) (b\<lparr>isDrawing := True, currentPath := []\<rparr>)"

definition moveDrawing :: "rect option \<Rightarrow> pointer_event \<Rightarrow> board \<Rightarrow> board" where
  "moveDrawing canvas e b = (if \<not> isDrawing b then b else push_coords (getCoords canvas e) b)"

text \<open>\<^verbatim>\<open>endDrawing\<close>; \<^verbatim>\<open>onStrokeComplete\<close> is the application's \<^verbatim>\<open>handleStrokeComplete\<close> (line 654 of App.tsx).\<close>

definition endDrawing :: "printer \<Rightarrow> int \<Rightarrow> board \<times> app \<Rightarrow> board \<times> app" where
  "endDrawing stringify now bs =
     (case bs of (b, s) \<Rightarrow>
        if \<not> isDrawing b then (b, s)
        else (b\<lparr>isDrawing := False, currentPath := []\<rparr>,
              if length (currentPath b) > 0 then handleStrokeComplete stringify now (currentPath b) s
              else s))"

section \<open>Events of the game view\<close>

text \<open>
  The callbacks that the browser may run on the component, one event each. The drawing
  board, the ping and clear buttons and the heartbeat interval exist in the \<^verbatim>\<open>GAME\<close>
  view only (lines 141 and 615-656). \<open>DataChannel rs\<close> is \<^verbatim>\<open>pc.ondatachannel\<close>, which
  stores the channel it is given, \<open>rs\<close> being the \<^verbatim>\<open>readyState\<close> of that channel;
  \<open>ChannelOpen\<close> and \<open>ChannelClose\<close> are the stored channel opening and closing, and no
  handler is registered for the closing. The handlers run one at a time, and a state update
  made by one is in place when the next one runs.
\<close>

datatype event =
    ClickClearBoard
  | ClickPing
  | HeartbeatTick
  | FlashTimeout
  | DataChannel string
  | ChannelOpen
  | ChannelClose
  | ChannelMessage string
  | ConnectionStateChange string
  | IceConnectionStateChange string
  | PointerDown "rect option" pointer_event
  | PointerMove "rect option" pointer_event
  | PointerUp int

fun step :: "printer \<Rightarrow> parser \<Rightarrow> board \<times> app \<Rightarrow> event \<Rightarrow> board \<times> app" where
  "step stringify parse (b, s) ClickClearBoard = (b, if view s = GAME then clearBoard stringify s else s)"
| "step stringify parse (b, s) ClickPing = (b, if view s = GAME then triggerPing stringify s else s)"
| "step stringify parse (b, s) HeartbeatTick = (b, heartbeat stringify s)"
| "step stringify parse (b, s) FlashTimeout = (b, flashTimeout s)"
| "step stringify parse (b, s) (DataChannel rs) = (b, s\<lparr>readyState := Some rs\<rparr>)"
| "step stringify parse (b, s) ChannelOpen =
     (b, if readyState s = None then s else onopen (s\<lparr>readyState := Some ''open''\<rparr>))"
| "step stringify parse (b, s) ChannelClose =
     (b, if readyState s = None then s else s\<lparr>readyState := Some ''closed''\<rparr>)"
| "step stringify parse (b, s) (ChannelMessage e_data) = (b, onmessage parse e_data s)"
| "step stringify parse (b, s) (ConnectionStateChange cs) = (b, onconnectionstatechange cs s)"
| "step stringify parse (b, s) (IceConnectionStateChange cs) = (b, oniceconnectionstatechange cs s)"
| "step stringify parse (b, s) (PointerDown canvas e) =
     (if view s = GAME then startDrawing canvas e b else b, s)"
| "step stringify parse (b, s) (PointerMove canvas e) =
     (if view s = GAME then moveDrawing canvas e b else b, s)"
| "step stringify parse (b, s) (PointerUp now) =
     (if view s = GAME then endDrawing stringify now (b, s) else (b, s))"

definition run :: "printer \<Rightarrow> parser \<Rightarrow> board \<times> app \<Rightarrow> event list \<Rightarrow> board \<times> app" where
  "run stringify parse = foldl (step stringify parse)"

section \<open>Cloud mode: signalling over the relay (App.tsx, lines 285-410)\<close>

text \<open>The relay topic \<^verbatim>\<open>`chkobba/${code}/<name>`\<close>.\<close>

definition topic :: "string \<Rightarrow> string \<Rightarrow> string" where
  "topic c name = ''chkobba/'' @ c @ ''/'' @ name"

text \<open>
  One call of \<^verbatim>\<open>connectCloudHost\<close> or \<^verbatim>\<open>connectCloudJoiner\<close> creates a peer
  connection and a relay client and registers callbacks on the client that close over
  both and over \<^verbatim>\<open>code\<close> and \<^verbatim>\<open>isReconnecting\<close>. A \<open>conn\<close> is what these
  callbacks can see and change: the captured values, the peer connection, the text they last
  passed to \<^verbatim>\<open>setStatus\<close>, and the invocations of the \<^verbatim>\<open>async\<close> callbacks that are
  suspended at an \<^verbatim>\<open>await\<close> or behind a timer (\<open>pending\<close>). \<open>timeline\<close> records, in
  order, what the client received and what the callbacks did.
\<close>

datatype obs =
    Subscribed string
  | Published string string
  | Received string string
  | OfferCreated json
  | AnswerCreated json
  | LocalDescriptionSet json
  | RemoteDescriptionSet json
  | Unhandled error
  | ConsoleError error

record 't conn =
  code :: string
  reconnecting :: bool
  pc :: rtc
  statusText :: string
  timeline :: "obs list"
  pending :: "'t list"

definition emit :: "obs list \<Rightarrow> 't conn \<Rightarrow> 't conn" where
  "emit os c = c\<lparr>timeline := timeline c @ os\<rparr>"

definition finish :: "nat \<Rightarrow> 't conn \<Rightarrow> 't conn" where
  "finish i c = c\<lparr>pending := take i (pending c) @ drop (Suc i) (pending c)\<rparr>"

definition continue :: "nat \<Rightarrow> 't \<Rightarrow> 't conn \<Rightarrow> 't conn" where
  "continue i t c = c\<lparr>pending := (pending c)[i := t]\<rparr>"

text \<open>
  How a promise of the peer connection settles is the browser's decision and comes with the
  event. When \<^verbatim>\<open>setLocalDescription\<close> or \<^verbatim>\<open>setRemoteDescription\<close> is fulfilled the
  connection holds the description and has moved to the signalling state of the offer/answer
  exchange.
\<close>

datatype outcome = Fulfilled json | Rejected error

definition setLocal :: "json \<Rightarrow> string \<Rightarrow> 't conn \<Rightarrow> 't conn" where
  "setLocal d st c = c\<lparr>pc := (pc c)\<lparr>localDescription := d, signalingState := st\<rparr>\<rparr>"

definition setRemote :: "json \<Rightarrow> string \<Rightarrow> 't conn \<Rightarrow> 't conn" where
  "setRemote d st c = c\<lparr>pc := (pc c)\<lparr>remoteDescription := d, signalingState := st\<rparr>\<rparr>"

subsection \<open>The joiner (lines 353-410)\<close>

text \<open>
  The stages of the message callback of lines 378-409 after an offer has been parsed:
  awaiting \<^verbatim>\<open>setRemoteDescription(offerDesc)\<close>, \<^verbatim>\<open>createAnswer()\<close>,
  \<^verbatim>\<open>setLocalDescription(answer)\<close>, and the timer of line 403.
\<close>

datatype jtask = AwaitSetRemote json | AwaitCreateAnswer | AwaitSetLocal json | AwaitTimer

datatype jevent =
    JConnect
  | JMessage string string
  | JSettle nat outcome
  | JTimer nat

definition connectCloudJoiner :: "string \<Rightarrow> app \<Rightarrow> app \<times> jtask conn" where
  "connectCloudJoiner c s =
     ((initPC (s\<lparr>view := (if view s \<noteq> GAME then JOIN_LOBBY else view s),
                 status := (if isReconnecting s then ''Reconnecting...''
                            else ''Connecting to Cloud...'')\<rparr>))
        \<lparr>relay := True\<rparr>,
      \<lparr>code = c, reconnecting = isReconnecting s, pc = new_RTCPeerConnection,
       statusText = (if isReconnecting s then ''Reconnecting...'' else ''Connecting to Cloud...''),
       timeline = [], pending = []\<rparr>)"

definition joinCloudGame :: "printer \<Rightarrow> int \<Rightarrow> app \<Rightarrow> app \<times> jtask conn option" where
  "joinCloudGame stringify now s =
     (if length (inputCode s) \<noteq> 4 then (s, None)
      else (case connectCloudJoiner (inputCode s)
                   (s\<lparr>localStorage := saveSession stringify now CLOUD JOINER (inputCode s) (localStorage s)\<rparr>)
            of (s', c) \<Rightarrow> (s', Some c)))"

fun joiner_settled :: "jtask \<Rightarrow> outcome \<Rightarrow> nat \<Rightarrow> jtask conn \<Rightarrow> jtask conn" where
  "joiner_settled AwaitTimer out i c = c"
| "joiner_settled t (Rejected e) i c = finish i (emit [Unhandled e] c)"
| "joiner_settled (AwaitSetRemote d) (Fulfilled v) i c =
     continue i AwaitCreateAnswer (emit [RemoteDescriptionSet d] (setRemote d ''have-remote-offer'' c))"
| "joiner_settled AwaitCreateAnswer (Fulfilled answer) i c =
     continue i (AwaitSetLocal answer) (emit [AnswerCreated answer] c)"
| "joiner_settled (AwaitSetLocal answer) (Fulfilled v) i c =
     continue i AwaitTimer (emit [LocalDescriptionSet answer] (setLocal answer ''stable'' c))"

fun joiner_step :: "printer \<Rightarrow> parser \<Rightarrow> jtask conn \<Rightarrow> jevent \<Rightarrow> jtask conn" where
  "joiner_step stringify parse c JConnect =
     emit [Subscribed (topic (code c) ''offer''), Subscribed (topic (code c) ''restart''),
           Published (topic (code c) ''join'') ''hello'']
       (c\<lparr>statusText := ''Looking for room...''\<rparr>)"
| "joiner_step stringify parse c (JMessage tp msg) =
     (if endsWith tp ''/restart''
      then emit [Received tp msg, Published (topic (code c) ''join'') ''hello_again''] c
      else if endsWith tp ''/offer''
      then (case parse msg of
              None \<Rightarrow> emit [Received tp msg, Unhandled SyntaxError]
                        (c\<lparr>statusText := ''Found Host. Processing...''\<rparr>)
            | Some offerDesc \<Rightarrow>
                emit [Received tp msg]
                  (c\<lparr>statusText := ''Found Host. Processing...'',
                     pending := pending c @ [AwaitSetRemote offerDesc]\<rparr>))
      else emit [Received tp msg] c)"
| "joiner_step stringify parse c (JSettle i out) =
     (if i < length (pending c) then joiner_settled (pending c ! i) out i c else c)"
| "joiner_step stringify parse c (JTimer i) =
     (if i < length (pending c) \<and> pending c ! i = AwaitTimer
      then finish i (emit [Published (topic (code c) ''answer'') (stringify (localDescription (pc c)))]
                      (c\<lparr>statusText := ''Connecting P2P...''\<rparr>))
      else c)"

definition joiner_run :: "printer \<Rightarrow> parser \<Rightarrow> jtask conn \<Rightarrow> jevent list \<Rightarrow> jtask conn" where
  "joiner_run stringify parse = foldl (joiner_step stringify parse)"

subsection \<open>The host (lines 287-351)\<close>

text \<open>
  The room code is computed in double-precision arithmetic. A finite double that is not
  negative is \<open>m * 2^e\<close> for a mantissa \<open>0 \<le> m < 2^53\<close> and an exponent
  \<open>e \<ge> -1074\<close>, and is written as the pair \<open>(m, e)\<close>, not necessarily normalised;
  \<open>valof\<close> is the number it stands for. The values here stay below \<open>2^14\<close>, so no
  operation overflows.
\<close>

type_synonym double = "int \<times> int"

definition valof :: "double \<Rightarrow> real" where
  "valof d = of_int (fst d) * 2 powi (snd d)"

text \<open>\<open>M / 2^n\<close> rounded to the nearest integer, a tie going to the even one.\<close>

definition roundHalfEven :: "int \<Rightarrow> nat \<Rightarrow> int" where
  "roundHalfEven M n =
     (let q = M div 2 ^ n; r = M mod 2 ^ n
      in if 2 ^ n < 2 * r \<or> (2 * r = 2 ^ n \<and> odd q) then q + 1 else q)"

text \<open>
  The double nearest to the exact value \<open>M * 2^e\<close>, for \<open>M \<ge> 0\<close>: the bits of
  \<open>M\<close> beyond the 53 of a mantissa, and those below the least exponent, are rounded off.
\<close>

definition round53 :: "int \<Rightarrow> int \<Rightarrow> double" where
  "round53 M e =
     (let k = max (bitlen M - 53) (- 1074 - e)
      in if k \<le> 0 then (M, e) else (roundHalfEven M (nat k), e + k))"

text \<open>
  \<^verbatim>\<open>d * 9000\<close> and \<^verbatim>\<open>1000 + d\<close>: the exact product and sum, rounded. \<^verbatim>\<open>Math.floor\<close>
  is exact.
\<close>

definition times9000 :: "double \<Rightarrow> double" where
  "times9000 d = round53 (fst d * 9000) (snd d)"

definition plus1000 :: "double \<Rightarrow> double" where
  "plus1000 d =
     (if snd d \<le> 0 then round53 (1000 * 2 ^ nat (- snd d) + fst d) (snd d)
      else round53 (1000 + fst d * 2 ^ nat (snd d)) 0)"

definition Math_floor :: "double \<Rightarrow> int" where
  "Math_floor d = (if 0 \<le> snd d then fst d * 2 ^ nat (snd d) else fst d div 2 ^ nat (- snd d))"

text \<open>What \<^verbatim>\<open>Math.random()\<close> may return: a double from 0 up to but excluding 1.\<close>

definition Math_random :: "double \<Rightarrow> bool" where
  "Math_random d = (0 \<le> fst d \<and> fst d < 2 ^ 53 \<and> - 1074 \<le> snd d \<and> valof d < 1)"

text \<open>\<^verbatim>\<open>Math.floor(1000 + Math.random() * 9000).toString()\<close>, \<open>r\<close> being the random number.\<close>

definition roomCode :: "double \<Rightarrow> string" where
  "roomCode r = toString (Math_floor (plus1000 (times9000 r)))"

text \<open>
  The suspended stages of the host's callbacks: in the connect callback, awaiting
  \<^verbatim>\<open>createOffer()\<close> and \<^verbatim>\<open>setLocalDescription(offer)\<close>; in the message callback,
  awaiting \<^verbatim>\<open>setRemoteDescription(answerDesc)\<close> inside the \<^verbatim>\<open>try\<close> block.
\<close>

datatype htask = AwaitCreateOffer | AwaitSetLocalOffer json | AwaitSetRemoteAnswer json

datatype hevent =
    HConnect
  | HMessage string string
  | HSettle nat outcome

definition connectCloudHost :: "string \<Rightarrow> app \<Rightarrow> app \<times> htask conn" where
  "connectCloudHost c s =
     ((initPC (s\<lparr>view := HOST_LOBBY,
                 status := (if isReconnecting s then ''Reconnecting...''
                            else ''Initializing Host...'')\<rparr>))
        \<lparr>readyState := Some ''connecting'', relay := True\<rparr>,
      \<lparr>code = c, reconnecting = isReconnecting s, pc = new_RTCPeerConnection,
       statusText = (if isReconnecting s then ''Reconnecting...'' else ''Initializing Host...''),
       timeline = [], pending = []\<rparr>)"

definition startCloudHost :: "printer \<Rightarrow> double \<Rightarrow> int \<Rightarrow> app \<Rightarrow> app \<times> htask conn" where
  "startCloudHost stringify r now s =
     connectCloudHost (roomCode r)
       (s\<lparr>shortCode := roomCode r,
          localStorage := saveSession stringify now CLOUD HOST (roomCode r) (localStorage s)\<rparr>)"

fun host_settled :: "htask \<Rightarrow> outcome \<Rightarrow> nat \<Rightarrow> htask conn \<Rightarrow> htask conn" where
  "host_settled (AwaitSetRemoteAnswer d) (Rejected e) i c = finish i (emit [ConsoleError e] c)"
| "host_settled t (Rejected e) i c = finish i (emit [Unhandled e] c)"
| "host_settled AwaitCreateOffer (Fulfilled offer) i c =
     continue i (AwaitSetLocalOffer offer) (emit [OfferCreated offer] c)"
| "host_settled (AwaitSetLocalOffer offer) (Fulfilled v) i c =
     finish i (emit (LocalDescriptionSet offer #
                     (if reconnecting c then [Published (topic (code c) ''restart'') ''host_back''] else []))
                (setLocal offer ''have-local-offer'' c))"
| "host_settled (AwaitSetRemoteAnswer d) (Fulfilled v) i c =
     finish i (emit [RemoteDescriptionSet d]
                (setRemote d ''stable'' (c\<lparr>statusText := ''Connecting P2P...''\<rparr>)))"

text \<open>The two \<^verbatim>\<open>if\<close> statements of the message callback, lines 327-337 and 339-349.\<close>

definition host_peer :: "printer \<Rightarrow> string \<Rightarrow> htask conn \<Rightarrow> htask conn" where
  "host_peer stringify tp c =
     (if endsWith tp ''/join'' \<or> endsWith tp ''/restart''
      then emit [Published (topic (code c) ''offer'') (stringify (localDescription (pc c)))]
             (c\<lparr>statusText := ''Sending Offer...''\<rparr>)
      else c)"

definition host_answer :: "parser \<Rightarrow> string \<Rightarrow> string \<Rightarrow> htask conn \<Rightarrow> htask conn" where
  "host_answer parse tp msg c =
     (if endsWith tp ''/answer''
      then (case parse msg of
              None \<Rightarrow> emit [ConsoleError SyntaxError] c
            | Some answerDesc \<Rightarrow>
                if signalingState (pc c) = ''have-local-offer''
                then c\<lparr>pending := pending c @ [AwaitSetRemoteAnswer answerDesc]\<rparr>
                else c)
      else c)"

fun host_step :: "printer \<Rightarrow> parser \<Rightarrow> htask conn \<Rightarrow> hevent \<Rightarrow> htask conn" where
  "host_step stringify parse c HConnect =
     emit [Subscribed (topic (code c) ''join''), Subscribed (topic (code c) ''answer'')]
       (c\<lparr>statusText := ''Waiting for player...'', pending := pending c @ [AwaitCreateOffer]\<rparr>)"
| "host_step stringify parse c (HMessage tp msg) =
     host_answer parse tp msg (host_peer stringify tp (emit [Received tp msg] c))"
| "host_step stringify parse c (HSettle i out) =
     (if i < length (pending c) then host_settled (pending c ! i) out i c else c)"

definition host_run :: "printer \<Rightarrow> parser \<Rightarrow> htask conn \<Rightarrow> hevent list \<Rightarrow> htask conn" where
  "host_run stringify parse = foldl (host_step stringify parse)"

section \<open>Manual mode: pasted codes (App.tsx, lines 412-471)\<close>

text \<open>
  \<^verbatim>\<open>JSON.parse(LZString.decompressFromBase64(text))\<close>: \<^verbatim>\<open>JSON.parse\<close> converts its
  argument to a string first, so a \<^verbatim>\<open>null\<close> from the decompression is parsed as the
  text \<^verbatim>\<open>null\<close>.
\<close>

definition pasted :: "(string \<Rightarrow> string option) \<Rightarrow> parser \<Rightarrow> string \<Rightarrow> json option" where
  "pasted decompressFromBase64 parse text =
     parse (case decompressFromBase64 text of None \<Rightarrow> ''null'' | Some t \<Rightarrow> t)"

text \<open>
  Whether the browser fulfils \<^verbatim>\<open>p.setRemoteDescription(d)\<close> is its own decision, the
  argument \<open>accepts\<close>, except that it rejects \<^verbatim>\<open>null\<close>, which is no description at
  all. A rejection is thrown at the \<^verbatim>\<open>await\<close> and caught like the exception of
  \<^verbatim>\<open>JSON.parse\<close>.
\<close>

definition fulfils :: "(rtc \<Rightarrow> json \<Rightarrow> bool) \<Rightarrow> rtc \<Rightarrow> json \<Rightarrow> bool" where
  "fulfils accepts p d = (d \<noteq> JNull \<and> accepts p d)"

text \<open>\<^verbatim>\<open>handleManualHostConnect\<close>, lines 434-443.\<close>

definition handleManualHostConnect ::
  "(string \<Rightarrow> string option) \<Rightarrow> parser \<Rightarrow> (rtc \<Rightarrow> json \<Rightarrow> bool) \<Rightarrow> app \<Rightarrow> app" where
  "handleManualHostConnect decompressFromBase64 parse accepts s =
     (case pcRef s of
        None \<Rightarrow> s
      | Some p \<Rightarrow>
         if remoteAnswer s = [] then s
         else (case pasted decompressFromBase64 parse (remoteAnswer s) of
                 None \<Rightarrow> s\<lparr>errorMsg := ''Invalid Answer Code''\<rparr>
               | Some desc \<Rightarrow>
                  if fulfils accepts p desc
                  then s\<lparr>pcRef := Some (p\<lparr>remoteDescription := desc, signalingState := ''stable''\<rparr>),
                         status := ''Connecting...''\<rparr>
                  else s\<lparr>errorMsg := ''Invalid Answer Code''\<rparr>))"

text \<open>
  \<^verbatim>\<open>handleManualJoinGenerate\<close>, lines 451-471. \<open>answer\<close> is what \<^verbatim>\<open>createAnswer()\<close> settles with
  (\<open>None\<close> for a rejection) and \<open>accepts_local\<close> tells whether
  \<^verbatim>\<open>setLocalDescription\<close> is fulfilled.
\<close>

definition handleManualJoinGenerate ::
  "(string \<Rightarrow> string option) \<Rightarrow> parser \<Rightarrow> (rtc \<Rightarrow> json \<Rightarrow> bool) \<Rightarrow> json option \<Rightarrow>
   (rtc \<Rightarrow> json \<Rightarrow> bool) \<Rightarrow> app \<Rightarrow> app" where
  "handleManualJoinGenerate decompressFromBase64 parse accepts answer accepts_local s =
     (case pasted decompressFromBase64 parse (remoteAnswer s) of
        None \<Rightarrow> (initPC s)\<lparr>errorMsg := ''Invalid Host Code''\<rparr>
      | Some offerDesc \<Rightarrow>
         if \<not> fulfils accepts new_RTCPeerConnection offerDesc
         then (initPC s)\<lparr>errorMsg := ''Invalid Host Code''\<rparr>
         else
           (let p = new_RTCPeerConnection\<lparr>remoteDescription := offerDesc,
                                           signalingState := ''have-remote-offer''\<rparr>
            in case answer of
                 None \<Rightarrow> s\<lparr>pcRef := Some p, errorMsg := ''Invalid Host Code''\<rparr>
               | Some a \<Rightarrow>
                  if accepts_local p a
                  then s\<lparr>pcRef := Some (p\<lparr>localDescription := a, signalingState := ''stable''\<rparr>)\<rparr>
                  else s\<lparr>pcRef := Some p, errorMsg := ''Invalid Host Code''\<rparr>))"

text \<open>The remote description that the connection of \<^verbatim>\<open>pcRef\<close> holds, if any.\<close>

definition remote_of :: "app \<Rightarrow> json" where
  "remote_of s = (case pcRef s of None \<Rightarrow> JNull | Some p \<Rightarrow> remoteDescription p)"

section \<open>Reading the peer link and the drawing board\<close>

text \<open>
  The four shapes of message that the application builds for the data channel: clear-board,
  ping, heartbeat, and stroke sync carrying a stroke made by \<^verbatim>\<open>handleStrokeComplete\<close>.
\<close>

definition peer_shape :: "json \<Rightarrow> bool" where
  "peer_shape obj =
     (obj = JObj [(''type'', JStr ''CLEAR_BOARD'')] \<or>
      obj = JObj [(''type'', JStr ''PING'')] \<or>
      obj = JObj [(''type'', JStr ''HEARTBEAT'')] \<or>
      (\<exists>now points. obj = JObj [(''type'', JStr ''SYNC_STROKE''), (''stroke'', newStroke now points)]))"

text \<open>
  A printer that keeps the \<^verbatim>\<open>type\<close> of a message and drops the rest, to run the model
  on concrete events where only the type of what is sent matters.
\<close>

definition type_tag :: printer where
  "type_tag j = (case field j ''type'' of Some (JStr t) \<Rightarrow> t | _ \<Rightarrow> [])"

text \<open>
  A drawing gesture: a pointer-down event, then pointer-move events, each with the canvas
  as it is when the event arrives. \<open>captured\<close> lists the points that \<^verbatim>\<open>getCoords\<close>
  returns for the events, in the order of the events.
\<close>

definition gesture :: "rect option \<times> pointer_event \<Rightarrow> (rect option \<times> pointer_event) list \<Rightarrow> board \<Rightarrow> board" where
  "gesture d ms b = foldl (\<lambda>b' (canvas, e). moveDrawing canvas e b') (startDrawing (fst d) (snd d) b) ms"

fun captured :: "(rect option \<times> pointer_event) list \<Rightarrow> point list" where
  "captured [] = []"
| "captured ((canvas, e) # es) =
     (case getCoords canvas e of Inr (Some pt) \<Rightarrow> pt # captured es | _ \<Rightarrow> captured es)"

section \<open>Reading a timeline\<close>

text \<open>The four relay topics of a room, and the topics a timeline subscribes or publishes to.\<close>

definition relay_topics :: "string \<Rightarrow> string set" where
  "relay_topics c = {topic c ''join'', topic c ''offer'', topic c ''answer'', topic c ''restart''}"

fun topics_of :: "obs list \<Rightarrow> string list" where
  "topics_of [] = []"
| "topics_of (Subscribed t # os) = t # topics_of os"
| "topics_of (Published t m # os) = t # topics_of os"
| "topics_of (ob # os) = topics_of os"

text \<open>
  \<open>reached parse tr t\<close>: the timeline \<open>tr\<close> holds, in this order, the steps that bring an
  invocation of the joiner's message callback to the stage \<open>t\<close>: an offer received on a
  topic ending in \<^verbatim>\<open>/offer\<close>, its parsed payload set as remote description, an answer
  created, and that answer set as local description.
\<close>

fun reached :: "parser \<Rightarrow> obs list \<Rightarrow> jtask \<Rightarrow> bool" where
  "reached parse tr (AwaitSetRemote d) =
     (\<exists>tp msg. endsWith tp ''/offer'' \<and> parse msg = Some d \<and> subseq [Received tp msg] tr)"
| "reached parse tr AwaitCreateAnswer =
     (\<exists>tp msg d. endsWith tp ''/offer'' \<and> parse msg = Some d \<and>
        subseq [Received tp msg, RemoteDescriptionSet d] tr)"
| "reached parse tr (AwaitSetLocal a) =
     (\<exists>tp msg d. endsWith tp ''/offer'' \<and> parse msg = Some d \<and>
        subseq [Received tp msg, RemoteDescriptionSet d, AnswerCreated a] tr)"
| "reached parse tr AwaitTimer =
     (\<exists>tp msg d a. endsWith tp ''/offer'' \<and> parse msg = Some d \<and>
        subseq [Received tp msg, RemoteDescriptionSet d, AnswerCreated a, LocalDescriptionSet a] tr)"

text \<open>Every publication on the answer topic comes after the four steps.\<close>

definition answers_follow :: "parser \<Rightarrow> string \<Rightarrow> obs list \<Rightarrow> bool" where
  "answers_follow parse c tr =
     (\<forall>n m. n < length tr \<and> tr ! n = Published (topic c ''answer'') m \<longrightarrow>
        reached parse (take n tr) AwaitTimer)"

text \<open>
  The invariant of a joiner connection: the answers published so far follow their offers,
  and every suspended invocation has the history of its stage.
\<close>

definition joiner_inv :: "parser \<Rightarrow> jtask conn \<Rightarrow> bool" where
  "joiner_inv parse c =
     (answers_follow parse (code c) (timeline c) \<and>
      (\<forall>t \<in> set (pending c). reached parse (timeline c) t))"

section \<open>Verified properties\<close>

subsection \<open>Session persistence\<close>

text \<open>
  Claim C3. \<^verbatim>\<open>saveSession\<close> writes one storage key, \<^verbatim>\<open>chkobba_session\<close>, and the value
  is the serialised record of exactly the four fields mode, role, code and timestamp, the
  timestamp being the time of the call. The manual-mode backup is written under
  \<^verbatim>\<open>chkobba_manual_state\<close>, in the two manual views only, and no other key changes.
  \<^verbatim>\<open>clearSession\<close> removes these two keys and leaves every other key as it was.
\<close>

theorem session_record_and_keys:
  "(\<forall>k. saveSession stringify now m r c ls k =
         (if k = ''chkobba_session''
          then Some (stringify (JObj [(''mode'', JStr (Mode_str m)), (''role'', JStr (Role_str r)),
                                      (''code'', JStr c), (''timestamp'', JNum (of_int now))]))
          else ls k))
   \<and> (\<forall>k. saveManualState stringify v lo ra ls k =
         (if (v = MANUAL_HOST \<or> v = MANUAL_JOIN) \<and> k = ''chkobba_manual_state''
          then Some (stringify (JObj [(''localOffer'', JStr lo), (''remoteAnswer'', JStr ra)]))
          else ls k))
   \<and> (\<forall>k. clearSession ls k =
         (if k = ''chkobba_session'' \<or> k = ''chkobba_manual_state'' then None else ls k))"
  by (simp add: saveSession_def SessionData_def saveManualState_def clearSession_def)

text \<open>
  The restore effect acts on a stored record only inside the branch guarded by the age test,
  and a record whose age is not below the limit is cleared.
\<close>

lemma restore_try_fresh:
  assumes "restore_try parse cv now ls saved = Inr cs" and "c \<in> set cs" and "is_restore c"
  shows "\<exists>a. age parse cv now saved = Some a \<and> a < 7200000"
proof -
  from assms obtain session ts where p: "parse saved = Some session"
    and t: "getProp session ''timestamp'' = Inr ts"
    by (auto simp: restore_try_def split: option.splits sum.splits)
  have fresh: "num_less (num_minus (Some (of_int now)) (toNumber cv ts)) (Some 7200000)"
  proof (rule ccontr)
    assume "\<not> ?thesis"
    with assms p t show False
      by (auto simp: restore_try_def clearSession_calls_def)
  qed
  then obtain a where "num_minus (Some (of_int now)) (toNumber cv ts) = Some a" and "a < 7200000"
    by (cases "num_minus (Some (of_int now)) (toNumber cv ts)") auto
  with p t show ?thesis by (simp add: age_def)
qed

lemma restore_try_stale:
  assumes "age parse cv now saved = Some a" and "7200000 \<le> a"
  shows "restore_try parse cv now ls saved = Inr clearSession_calls"
  using assms
  by (auto simp: restore_try_def age_def split: option.splits sum.splits)

lemma run_storage_clear: "run_storage clearSession_calls ls = clearSession ls"
  by (simp add: clearSession_calls_def clearSession_def)

text \<open>
  Claim C4, as amended. A call that acts on the stored record (any call but a removal) is
  made only when the record parses and its timestamp is strictly less than 7,200,000 ms
  before the current time. For every non-empty stored text that fails to parse, or whose
  age is 7,200,000 ms or more, the effect makes exactly the two removals of
  \<^verbatim>\<open>chkobba_session\<close> and \<^verbatim>\<open>chkobba_manual_state\<close>, which is \<^verbatim>\<open>clearSession\<close>, and
  starts no reconnection.
\<close>

theorem restoreSession_fresh_or_cleared:
  "(\<forall>c \<in> set (restoreSession parse cv now ls). is_restore c \<longrightarrow>
      (\<exists>saved a. ls ''chkobba_session'' = Some saved \<and> age parse cv now saved = Some a \<and> a < 7200000))
   \<and> (\<forall>saved. ls ''chkobba_session'' = Some saved \<and> saved \<noteq> [] \<and>
         (parse saved = None \<or> (\<exists>a. age parse cv now saved = Some a \<and> 7200000 \<le> a)) \<longrightarrow>
         restoreSession parse cv now ls = [RemoveItem ''chkobba_session'', RemoveItem ''chkobba_manual_state'']
         \<and> run_storage (restoreSession parse cv now ls) ls = clearSession ls
         \<and> (\<forall>c \<in> set (restoreSession parse cv now ls). \<not> is_reconnect c))"
proof (intro conjI ballI impI allI)
  fix c assume c: "c \<in> set (restoreSession parse cv now ls)" and r: "is_restore c"
  from c have "\<exists>saved. ls ''chkobba_session'' = Some saved \<and> saved \<noteq> []"
    by (cases "ls ''chkobba_session''") (auto simp: restoreSession_def split: if_splits)
  then obtain saved where s: "ls ''chkobba_session'' = Some saved" "saved \<noteq> []"
    by blast
  show "\<exists>saved a. ls ''chkobba_session'' = Some saved \<and> age parse cv now saved = Some a \<and> a < 7200000"
  proof (cases "restore_try parse cv now ls saved")
    case (Inl e)
    with c r s show ?thesis by (auto simp: restoreSession_def clearSession_calls_def)
  next
    case (Inr cs)
    with c s have "c \<in> set cs" by (simp add: restoreSession_def)
    from restore_try_fresh[OF Inr this r] s show ?thesis by blast
  qed
next
  fix saved
  assume h: "ls ''chkobba_session'' = Some saved \<and> saved \<noteq> [] \<and>
         (parse saved = None \<or> (\<exists>a. age parse cv now saved = Some a \<and> 7200000 \<le> a))"
  have eq: "restoreSession parse cv now ls = clearSession_calls"
  proof -
    from h consider "parse saved = None" | a where "age parse cv now saved = Some a" "7200000 \<le> a"
      by auto
    then show ?thesis
    proof cases
      case 1
      with h show ?thesis by (simp add: restoreSession_def restore_try_def)
    next
      case 2
      with h restore_try_stale[OF 2, of ls] show ?thesis by (simp add: restoreSession_def)
    qed
  qed
  show "restoreSession parse cv now ls = [RemoveItem ''chkobba_session'', RemoveItem ''chkobba_manual_state'']"
    using eq by (simp add: clearSession_calls_def)
  show "run_storage (restoreSession parse cv now ls) ls = clearSession ls"
    using eq by (simp add: run_storage_clear)
  fix c assume "c \<in> set (restoreSession parse cv now ls)"
  with eq show "\<not> is_reconnect c" by (auto simp: clearSession_calls_def)
qed

theorem restoreSession_fresh_or_cleared_witness:
  \<open>(\<exists>saved a. [''chkobba_session'' \<mapsto> ''{"mode":"CLOUD","role":"HOST","code":"1234","timestamp":0}'']
                  ''chkobba_session'' = Some saved
       \<and> age [''{"mode":"CLOUD","role":"HOST","code":"1234","timestamp":0}'' \<mapsto> SessionData CLOUD HOST ''1234'' 0]
             Map.empty 7199999 saved = Some a
       \<and> a < 7200000)
   \<and> restoreSession [''{"mode":"CLOUD","role":"HOST","code":"1234","timestamp":0}'' \<mapsto> SessionData CLOUD HOST ''1234'' 0]
        Map.empty 7200000
        [''chkobba_session'' \<mapsto> ''{"mode":"CLOUD","role":"HOST","code":"1234","timestamp":0}'']
      = [RemoveItem ''chkobba_session'', RemoveItem ''chkobba_manual_state'']\<close>
proof -
  let ?S = \<open>''{"mode":"CLOUD","role":"HOST","code":"1234","timestamp":0}''\<close>
  let ?P = "[?S \<mapsto> SessionData CLOUD HOST ''1234'' 0]"
  let ?L = "[''chkobba_session'' \<mapsto> ?S]"
  have m: "SetIsReconnecting True \<in> set (restoreSession ?P Map.empty 7199999 ?L)"
    by (simp add: restoreSession_def restore_try_def field_def SessionData_def)
  have r: "is_restore (SetIsReconnecting True)" by simp
  have h: "?L ''chkobba_session'' = Some ?S \<and> ?S \<noteq> [] \<and>
           (?P ?S = None \<or> (\<exists>a. age ?P Map.empty 7200000 ?S = Some a \<and> 7200000 \<le> a))"
    by (simp add: age_def SessionData_def)
  from restoreSession_fresh_or_cleared[of ?P Map.empty 7199999 ?L, THEN conjunct1, rule_format, OF m r]
       restoreSession_fresh_or_cleared[of ?P Map.empty 7200000 ?L, THEN conjunct2, rule_format, OF h]
  show ?thesis by blast
qed

text \<open>
  The claim as written fails on the empty text: it does not parse, yet the guard
  \<^verbatim>\<open>if (saved)\<close> of line 73 treats it as no record, and nothing is removed.
\<close>

theorem restoreSession_empty_counterexample:
  "[''chkobba_session'' \<mapsto> ''''] ''chkobba_session'' = Some ''''
   \<and> (Map.empty :: parser) '''' = None
   \<and> restoreSession Map.empty Map.empty 0 [''chkobba_session'' \<mapsto> ''''] = []
   \<and> run_storage (restoreSession Map.empty Map.empty 0 [''chkobba_session'' \<mapsto> ''''])
        [''chkobba_session'' \<mapsto> ''''] ''chkobba_session'' = Some ''''"
  by (simp add: restoreSession_def)

subsection \<open>Room codes and relay topics\<close>

text \<open>What the helper functions on connections leave alone.\<close>

lemma conn_helpers [simp]:
  "code (emit os c) = code c" "pending (emit os c) = pending c" "timeline (emit os c) = timeline c @ os"
  "code (finish i c) = code c" "timeline (finish i c) = timeline c"
  "pending (finish i c) = take i (pending c) @ drop (Suc i) (pending c)"
  "code (continue i t c) = code c" "timeline (continue i t c) = timeline c"
  "pending (continue i t c) = (pending c)[i := t]"
  "code (setLocal d st c) = code c" "timeline (setLocal d st c) = timeline c"
  "pending (setLocal d st c) = pending c"
  "code (setRemote d st c) = code c" "timeline (setRemote d st c) = timeline c"
  "pending (setRemote d st c) = pending c"
  "reconnecting (setLocal d st c) = reconnecting c"
  by (simp_all add: emit_def finish_def continue_def setLocal_def setRemote_def)

text \<open>No step of a connection touches a topic outside the four of its room.\<close>

lemma topics_of_append [simp]: "topics_of (xs @ ys) = topics_of xs @ topics_of ys"
  by (induction xs rule: topics_of.induct) simp_all

lemma joiner_settled_topics:
  "code (joiner_settled t out i c) = code c \<and>
   set (topics_of (timeline (joiner_settled t out i c))) \<subseteq> set (topics_of (timeline c))"
  by (cases "(t, out, i, c)" rule: joiner_settled.cases) auto

lemma joiner_step_topics:
  "code (joiner_step stringify parse c ev) = code c \<and>
   set (topics_of (timeline (joiner_step stringify parse c ev)))
     \<subseteq> set (topics_of (timeline c)) \<union> relay_topics (code c)"
proof (cases ev)
  case JConnect
  then show ?thesis by (auto simp: relay_topics_def)
next
  case (JMessage tp msg)
  then show ?thesis by (auto simp: relay_topics_def split: option.splits)
next
  case (JSettle i out)
  then show ?thesis using joiner_settled_topics[of "pending c ! i" out i c] by auto
next
  case (JTimer i)
  then show ?thesis by (auto simp: relay_topics_def)
qed

lemma joiner_run_topics:
  "code (joiner_run stringify parse c evs) = code c \<and>
   set (topics_of (timeline (joiner_run stringify parse c evs)))
     \<subseteq> set (topics_of (timeline c)) \<union> relay_topics (code c)"
proof (induction evs arbitrary: c)
  case Nil
  then show ?case by (simp add: joiner_run_def)
next
  case (Cons ev evs)
  have "joiner_run stringify parse c (ev # evs) = joiner_run stringify parse (joiner_step stringify parse c ev) evs"
    by (simp add: joiner_run_def)
  with Cons[of "joiner_step stringify parse c ev"] joiner_step_topics[of stringify parse c ev]
  show ?case by auto
qed

lemma host_settled_topics:
  "code (host_settled t out i c) = code c \<and>
   set (topics_of (timeline (host_settled t out i c)))
     \<subseteq> set (topics_of (timeline c)) \<union> relay_topics (code c)"
  by (cases "(t, out, i, c)" rule: host_settled.cases) (auto simp: relay_topics_def)

lemma host_step_topics:
  "code (host_step stringify parse c ev) = code c \<and>
   set (topics_of (timeline (host_step stringify parse c ev)))
     \<subseteq> set (topics_of (timeline c)) \<union> relay_topics (code c)"
proof (cases ev)
  case HConnect
  then show ?thesis by (auto simp: relay_topics_def)
next
  case (HMessage tp msg)
  then show ?thesis
    by (auto simp: relay_topics_def host_answer_def host_peer_def split: option.splits)
next
  case (HSettle i out)
  then show ?thesis using host_settled_topics[of "pending c ! i" out i c] by auto
qed

lemma host_run_topics:
  "code (host_run stringify parse c evs) = code c \<and>
   set (topics_of (timeline (host_run stringify parse c evs)))
     \<subseteq> set (topics_of (timeline c)) \<union> relay_topics (code c)"
proof (induction evs arbitrary: c)
  case Nil
  then show ?case by (simp add: host_run_def)
next
  case (Cons ev evs)
  have "host_run stringify parse c (ev # evs) = host_run stringify parse (host_step stringify parse c ev) evs"
    by (simp add: host_run_def)
  with Cons[of "host_step stringify parse c ev"] host_step_topics[of stringify parse c ev]
  show ?case by auto
qed



text \<open>A number of four digits is rendered by four digit characters.\<close>

lemma digits_small: "n < 10 \<Longrightarrow> digits n = [''0123456789'' ! n]"
  by (subst digits.simps) simp

lemma digits_large: "10 \<le> n \<Longrightarrow> digits n = digits (n div 10) @ [''0123456789'' ! (n mod 10)]"
  by (subst digits.simps) simp

lemma digit_char: "d < 10 \<Longrightarrow> ''0123456789'' ! d \<in> set ''0123456789''"
  by (rule nth_mem) simp

lemma digits_four:
  assumes "1000 \<le> n" and "n \<le> 9999"
  shows "length (digits n) = 4 \<and> set (digits n) \<subseteq> set ''0123456789''"
proof -
  have a: "10 \<le> n" "10 \<le> n div 10" "10 \<le> n div 10 div 10" "n div 10 div 10 div 10 < 10"
    using assms by auto
  have e: "digits n = [''0123456789'' ! (n div 10 div 10 div 10), ''0123456789'' ! (n div 10 div 10 mod 10),
                    ''0123456789'' ! (n div 10 mod 10), ''0123456789'' ! (n mod 10)]"
    unfolding digits_large[OF a(1)] digits_large[OF a(2)] digits_large[OF a(3)] digits_small[OF a(4)]
    by simp
  have m: "''0123456789'' ! (n div 10 div 10 div 10) \<in> set ''0123456789''"
    "''0123456789'' ! (n div 10 div 10 mod 10) \<in> set ''0123456789''"
    "''0123456789'' ! (n div 10 mod 10) \<in> set ''0123456789''"
    "''0123456789'' ! (n mod 10) \<in> set ''0123456789''"
    using a(4) by (simp_all only: digit_char pos_mod_bound mod_less_divisor zero_less_numeral)
  show ?thesis unfolding e using m by simp
qed

text \<open>Rounding a quotient keeps it on the same side of every integer.\<close>

lemma rhe_cases:
  obtains (down) "roundHalfEven M n = M div 2 ^ n" "2 * (M mod 2 ^ n) \<le> 2 ^ n"
        | (up) "roundHalfEven M n = M div 2 ^ n + 1" "2 ^ n \<le> 2 * (M mod 2 ^ n)"
  by (auto simp: roundHalfEven_def Let_def split: if_splits) (metis not_less order.strict_iff_order)+

lemma div_ge: "g * 2 ^ n \<le> (M::int) \<Longrightarrow> g \<le> M div 2 ^ n"
proof -
  assume "g * 2 ^ n \<le> M"
  then have "(g * 2 ^ n) div 2 ^ n \<le> M div 2 ^ n" by (rule zdiv_mono1) simp
  then show ?thesis by simp
qed

lemma split_M:
  "(M::int) = M div 2 ^ n * 2 ^ n + M mod 2 ^ n" "0 \<le> (M::int) mod 2 ^ n" "(M::int) mod 2 ^ n < 2 ^ n"
  by (simp_all only: div_mult_mod_eq) simp_all

lemma rhe_lower: "g * 2 ^ n \<le> M \<Longrightarrow> g \<le> roundHalfEven M n"
  using div_ge[of g n M] by (cases M n rule: rhe_cases) simp_all

lemma rhe_upper:
  assumes "M \<le> g * 2 ^ n"
  shows "roundHalfEven M n \<le> g"
proof (rule ccontr)
  assume c: "\<not> roundHalfEven M n \<le> g"
  let ?q = "M div 2 ^ n" and ?r = "M mod 2 ^ n"
  note s = split_M[of M n]
  show False
  proof (cases M n rule: rhe_cases)
    case down
    with c have "g + 1 \<le> ?q" by simp
    then have "(g + 1) * 2 ^ n \<le> ?q * 2 ^ n" by (rule mult_right_mono) simp
    then have "g * 2 ^ n + 2 ^ n \<le> ?q * 2 ^ n" by (simp add: algebra_simps)
    moreover have "(0::int) < 2 ^ n" by simp
    ultimately show False using s assms by linarith
  next
    case up
    with c have "g \<le> ?q" by simp
    then have "g * 2 ^ n \<le> ?q * 2 ^ n" by (rule mult_right_mono) simp
    moreover have "(0::int) < 2 ^ n" by simp
    ultimately show False using up(2) s assms by linarith
  qed
qed

lemma rhe_half:
  assumes "2 * M < (2 * g - 1) * 2 ^ n"
  shows "roundHalfEven M n \<le> g - 1"
proof (rule ccontr)
  assume c: "\<not> roundHalfEven M n \<le> g - 1"
  let ?q = "M div 2 ^ n" and ?r = "M mod 2 ^ n"
  note s = split_M[of M n]
  have e: "(2 * g - 1) * 2 ^ n = 2 * (g * 2 ^ n) - (2::int) ^ n" by (simp add: algebra_simps)
  show False
  proof (cases M n rule: rhe_cases)
    case down
    with c have "g \<le> ?q" by simp
    then have "g * 2 ^ n \<le> ?q * 2 ^ n" by (rule mult_right_mono) simp
    moreover have "(0::int) < 2 ^ n" by simp
    ultimately show False using s assms e by linarith
  next
    case up
    with c have "g - 1 \<le> ?q" by simp
    then have "(g - 1) * 2 ^ n \<le> ?q * 2 ^ n" by (rule mult_right_mono) simp
    then have "g * 2 ^ n - 2 ^ n \<le> ?q * 2 ^ n" by (simp add: algebra_simps)
    with up(2) s assms e show False by linarith
  qed
qed


text \<open>Powers of two with integer exponents.\<close>

lemma pw_pos [simp]: "(0::real) < 2 powi e"
  by (simp add: zero_less_power_int)

lemma pw_add: "(2::real) powi (a + b) = 2 powi a * 2 powi b"
  by (simp add: power_int_add)

lemma pw_nat: "(2::real) powi (int n) = 2 ^ n"
  by (simp add: power_int_of_nat)

lemma pw_shift: "(2::real) powi (e + int n) = 2 ^ n * 2 powi e"
  by (simp add: pw_add pw_nat)

lemma pw_less_imp: "(2::real) powi a < 2 powi b \<Longrightarrow> a < b"
proof (rule ccontr)
  assume l: "(2::real) powi a < 2 powi b" and "\<not> a < b"
  then have "b \<le> a" by simp
  then have "(2::real) powi b \<le> 2 powi a" by (rule power_int_increasing) simp
  with l show False by simp
qed

lemma pw_grid: "e \<le> j \<Longrightarrow> (2::real) powi j = 2 ^ nat (j - e) * 2 powi e"
  using pw_shift[of e "nat (j - e)"] by simp

lemma valof_pair [simp]: "valof (M, e) = of_int M * (2::real) powi e"
  by (simp add: valof_def)

text \<open>
  Rounding to a double is exact below \<open>2^53\<close> and otherwise drops \<open>n\<close> bits; it keeps
  the value on the same side of every number of the grid it rounds to, and a value that lies
  below the middle between two neighbours of the grid goes to the lower one.
\<close>

lemma round53_cases:
  assumes "0 \<le> M" and "- 1074 \<le> e"
  obtains (exact) "round53 M e = (M, e)" "M < 2 ^ 53"
        | (rounded) n where "0 < n" "round53 M e = (roundHalfEven M n, e + int n)"
                            "2 ^ (n + 52) \<le> M" "M < 2 ^ (n + 53)"
proof (cases "bitlen M \<le> 53")
  case True
  with assms have "round53 M e = (M, e)" by (simp add: round53_def Let_def)
  moreover from True have "M < 2 ^ 53" by (simp add: bitlen_le_iff_power)
  ultimately show ?thesis by (rule exact)
next
  case False
  define n where "n = nat (bitlen M - 53)"
  from False have n: "0 < n" "bitlen M = int n + 53" by (simp_all add: n_def)
  from False have "0 < M" using bitlen_eq_zero_iff[of M] assms(1) by (cases "M = 0") auto
  from bitlen_bounds[OF this] n have b: "2 ^ (n + 52) \<le> M" "M < 2 ^ (n + 53)"
    by (simp_all add: nat_add_distrib add.commute)
  from False assms have "round53 M e = (roundHalfEven M n, e + int n)"
    by (simp add: round53_def Let_def max_def n_def)
  with n(1) b show ?thesis by (intro rounded[of n])
qed

lemma real_le_int: "(of_int a :: real) * 2 ^ n \<le> of_int b * 2 ^ n * 2 ^ d \<Longrightarrow> a \<le> b * 2 ^ d"
proof -
  assume "(of_int a :: real) * 2 ^ n \<le> of_int b * 2 ^ n * 2 ^ d"
  then have "(of_int a :: real) \<le> of_int b * 2 ^ d" by (simp add: field_simps)
  then have "(of_int a :: real) \<le> of_int (b * 2 ^ d)" by simp
  then show ?thesis by (simp only: of_int_le_iff)
qed

lemma fl_upper:
  assumes M: "0 \<le> M" and e: "- 1074 \<le> e"
    and le: "of_int M * (2::real) powi e \<le> of_int g * 2 powi j"
    and lt: "of_int M * (2::real) powi e < 2 powi (j + 53)"
  shows "valof (round53 M e) \<le> of_int g * 2 powi j"
  using M e
proof (cases rule: round53_cases)
  case exact
  with le show ?thesis by simp
next
  case (rounded n)
  have "2 powi (e + int n + 52) = (2::real) ^ (n + 52) * 2 powi e"
    using pw_shift[of e "n + 52"] by (simp add: add.assoc)
  also have "\<dots> \<le> of_int M * (2::real) powi e"
  proof -
    from rounded(3) have "(of_int ((2::int) ^ (n + 52)) :: real) \<le> of_int M" by (simp only: of_int_le_iff)
    then have "(2::real) ^ (n + 52) \<le> of_int M" by simp
    then show ?thesis by (simp add: mult_right_mono)
  qed
  finally have "(2::real) powi (e + int n + 52) < 2 powi (j + 53)" using lt by simp
  then have ej: "e + int n \<le> j" using pw_less_imp by fastforce
  define d where "d = nat (j - (e + int n))"
  have pj: "(2::real) powi j = 2 ^ d * 2 powi (e + int n)" unfolding d_def by (rule pw_grid[OF ej])
  have pn: "(2::real) powi (e + int n) = 2 ^ n * 2 powi e" by (rule pw_shift)
  from le have "of_int M * (2::real) powi e \<le> of_int g * 2 ^ d * 2 ^ n * 2 powi e" by (simp add: pj pn)
  then have "(of_int M :: real) \<le> of_int g * 2 ^ d * 2 ^ n" by simp
  then have "(of_int M :: real) \<le> of_int (g * 2 ^ d * 2 ^ n)" by simp
  then have "M \<le> g * 2 ^ d * 2 ^ n" by (simp only: of_int_le_iff)
  then have "roundHalfEven M n \<le> g * 2 ^ d" by (rule rhe_upper)
  then have "(of_int (roundHalfEven M n) :: real) \<le> of_int (g * 2 ^ d)" by (simp only: of_int_le_iff)
  then have "of_int (roundHalfEven M n) * (2::real) powi (e + int n) \<le> of_int (g * 2 ^ d) * 2 powi (e + int n)"
    by (rule mult_right_mono) simp
  with rounded(2) show ?thesis by (simp add: pj)
qed

lemma fl_lower:
  assumes M: "0 \<le> M" and e: "- 1074 \<le> e"
    and le: "of_int g * (2::real) powi j \<le> of_int M * (2::real) powi e"
    and lt: "of_int M * (2::real) powi e < 2 powi (j + 53)"
  shows "of_int g * 2 powi j \<le> valof (round53 M e)"
  using M e
proof (cases rule: round53_cases)
  case exact
  with le show ?thesis by simp
next
  case (rounded n)
  have "2 powi (e + int n + 52) = (2::real) ^ (n + 52) * 2 powi e"
    using pw_shift[of e "n + 52"] by (simp add: add.assoc)
  also have "\<dots> \<le> of_int M * (2::real) powi e"
  proof -
    from rounded(3) have "(of_int ((2::int) ^ (n + 52)) :: real) \<le> of_int M" by (simp only: of_int_le_iff)
    then have "(2::real) ^ (n + 52) \<le> of_int M" by simp
    then show ?thesis by (simp add: mult_right_mono)
  qed
  finally have "(2::real) powi (e + int n + 52) < 2 powi (j + 53)" using lt by simp
  then have ej: "e + int n \<le> j" using pw_less_imp by fastforce
  define d where "d = nat (j - (e + int n))"
  have pj: "(2::real) powi j = 2 ^ d * 2 powi (e + int n)" unfolding d_def by (rule pw_grid[OF ej])
  have pn: "(2::real) powi (e + int n) = 2 ^ n * 2 powi e" by (rule pw_shift)
  from le have "of_int g * 2 ^ d * 2 ^ n * 2 powi e \<le> of_int M * (2::real) powi e" by (simp add: pj pn)
  then have "(of_int g :: real) * 2 ^ d * 2 ^ n \<le> of_int M" by simp
  then have "(of_int (g * 2 ^ d * 2 ^ n) :: real) \<le> of_int M" by simp
  then have "g * 2 ^ d * 2 ^ n \<le> M" by (simp only: of_int_le_iff)
  then have "g * 2 ^ d \<le> roundHalfEven M n" by (rule rhe_lower)
  then have "(of_int (g * 2 ^ d) :: real) \<le> of_int (roundHalfEven M n)" by (simp only: of_int_le_iff)
  then have "of_int (g * 2 ^ d) * (2::real) powi (e + int n) \<le> of_int (roundHalfEven M n) * 2 powi (e + int n)"
    by (rule mult_right_mono) simp
  with rounded(2) show ?thesis by (simp add: pj)
qed


lemma below_exponent:
  assumes "(2::real) ^ (n + 52) \<le> of_int M"
  shows "(2::real) powi (e + int n + 52) \<le> of_int M * 2 powi e"
proof -
  have "(2::real) powi (e + int n + 52) = 2 ^ (n + 52) * 2 powi e"
    using pw_shift[of e "n + 52"] by (simp add: add.assoc)
  also from assms have "\<dots> \<le> of_int M * 2 powi e" by (simp add: mult_right_mono)
  finally show ?thesis .
qed

lemma above_exponent:
  assumes "of_int M < (2::real) ^ n"
  shows "of_int M * (2::real) powi e < 2 powi (e + int n)"
proof -
  from assms have "of_int M * (2::real) powi e < 2 ^ n * 2 powi e" by (simp add: mult_strict_right_mono)
  then show ?thesis by (simp add: pw_shift)
qed

lemma fl_half:
  assumes M: "0 \<le> M" and e: "- 1074 \<le> e"
    and lo: "(2::real) powi (j + 52) \<le> of_int M * 2 powi e"
    and hi: "of_int M * (2::real) powi e < 2 powi (j + 53)"
    and half: "of_int M * (2::real) powi e < (of_int g - 1 / 2) * 2 powi j"
  shows "valof (round53 M e) \<le> (of_int g - 1) * 2 powi j"
  using M e
proof (cases rule: round53_cases)
  case exact
  from exact(2) have "(of_int M :: real) < of_int ((2::int) ^ 53)" by (simp only: of_int_less_iff)
  then have "(of_int M :: real) < 2 ^ 53" by simp
  from above_exponent[OF this, of e] lo have "(2::real) powi (j + 52) < 2 powi (e + 53)" by simp
  then have ej: "j \<le> e" using pw_less_imp by fastforce
  define d where "d = nat (e - j)"
  have pe: "(2::real) powi e = 2 ^ d * 2 powi j" unfolding d_def by (rule pw_grid[OF ej])
  from half have "of_int M * 2 ^ d * (2::real) powi j < (of_int g - 1 / 2) * 2 powi j" by (simp add: pe)
  then have "(of_int M :: real) * 2 ^ d < of_int g - 1 / 2" by simp
  then have "(of_int (2 * (M * 2 ^ d)) :: real) < of_int (2 * g - 1)" by simp
  then have "2 * (M * 2 ^ d) < 2 * g - 1" by (simp only: of_int_less_iff)
  then have "M * 2 ^ d \<le> g - 1" by simp
  then have "(of_int (M * 2 ^ d) :: real) \<le> of_int (g - 1)" by (simp only: of_int_le_iff)
  then have "of_int (M * 2 ^ d) * (2::real) powi j \<le> of_int (g - 1) * 2 powi j"
    by (rule mult_right_mono) simp
  with exact(1) show ?thesis by (simp add: pe)
next
  case (rounded n)
  from rounded(3) have "(of_int ((2::int) ^ (n + 52)) :: real) \<le> of_int M" by (simp only: of_int_le_iff)
  then have "(2::real) ^ (n + 52) \<le> of_int M" by simp
  from below_exponent[OF this, of e] hi have "(2::real) powi (e + int n + 52) < 2 powi (j + 53)" by simp
  then have a: "e + int n \<le> j" using pw_less_imp by fastforce
  from rounded(4) have "(of_int M :: real) < of_int ((2::int) ^ (n + 53))" by (simp only: of_int_less_iff)
  then have "(of_int M :: real) < 2 ^ (n + 53)" by simp
  from above_exponent[OF this, of e] lo have "(2::real) powi (j + 52) < 2 powi (e + int (n + 53))" by simp
  then have b: "j \<le> e + int n" using pw_less_imp by fastforce
  from a b have j: "j = e + int n" by simp
  have pj: "(2::real) powi j = 2 ^ n * 2 powi e" unfolding j by (rule pw_shift)
  from half have "of_int M * (2::real) powi e < (of_int g - 1 / 2) * 2 ^ n * 2 powi e" by (simp add: pj)
  then have "(of_int M :: real) < (of_int g - 1 / 2) * 2 ^ n" by simp
  then have "(of_int (2 * M) :: real) < of_int ((2 * g - 1) * 2 ^ n)" by (simp add: algebra_simps)
  then have "2 * M < (2 * g - 1) * 2 ^ n" by (simp only: of_int_less_iff)
  then have "roundHalfEven M n \<le> g - 1" by (rule rhe_half)
  then have "(of_int (roundHalfEven M n) :: real) \<le> of_int (g - 1)" by (simp only: of_int_le_iff)
  then have "of_int (roundHalfEven M n) * (2::real) powi j \<le> of_int (g - 1) * 2 powi j"
    by (rule mult_right_mono) simp
  with rounded(2) show ?thesis by (simp add: j)
qed

lemma round53_nonneg:
  assumes "0 \<le> M" and "- 1074 \<le> e"
  shows "0 \<le> fst (round53 M e) \<and> - 1074 \<le> snd (round53 M e)"
  using assms
proof (cases rule: round53_cases)
  case exact
  with assms show ?thesis by simp
next
  case (rounded n)
  from assms(1) have "0 * 2 ^ n \<le> M" by simp
  then have "0 \<le> roundHalfEven M n" by (rule rhe_lower)
  with rounded(2) assms(2) show ?thesis by simp
qed


text \<open>
  The largest double below 1 is \<open>1 - 2^-53\<close>. Its product with 9000 lies below the
  middle between \<open>9000 - 2^-39\<close> and 9000, so the rounded product is at most
  \<open>9000 - 2^-39\<close>, and the rounded sum with 1000 stays below 10000.
\<close>

lemma pw_consts:
  "(2::real) powi (- 53) = 1 / 2 ^ 53" "(2::real) powi (- 39) = 1 / 2 ^ 39"
  "(2::real) powi (- 39 + 52) = 2 ^ 13" "(2::real) powi (- 39 + 53) = 2 ^ 14"
  by (simp_all add: power_int_minus_divide)

lemma random_below_one:
  assumes "Math_random d"
  shows "valof d \<le> 1 - 1 / 2 ^ 53"
proof -
  obtain m e where d: "d = (m, e)" by (cases d)
  from assms d have m: "0 \<le> m" "m < 2 ^ 53" and v: "of_int m * (2::real) powi e < 1"
    by (simp_all add: Math_random_def)
  show ?thesis
  proof (cases "- 53 \<le> e")
    case True
    define t where "t = nat (e + 53)"
    have pe: "(2::real) powi e = 2 ^ t * 2 powi (- 53)"
      unfolding t_def using pw_grid[of "- 53" e] True by simp
    from v have "of_int m * 2 ^ t * (2::real) powi (- 53) < 2 ^ 53 * 2 powi (- 53)"
      by (simp add: pe pw_consts)
    then have "(of_int m :: real) * 2 ^ t < 2 ^ 53" by (simp only: mult_less_cancel_right_pos pw_pos)
    then have "(of_int (m * 2 ^ t) :: real) < of_int (2 ^ 53)" by simp
    then have "m * 2 ^ t < 2 ^ 53" by (simp only: of_int_less_iff)
    then have "m * 2 ^ t \<le> 2 ^ 53 - 1" by simp
    then have "(of_int (m * 2 ^ t) :: real) \<le> of_int (2 ^ 53 - 1)" by (simp only: of_int_le_iff)
    then have "of_int (m * 2 ^ t) * (2::real) powi (- 53) \<le> of_int (2 ^ 53 - 1) * 2 powi (- 53)"
      by (rule mult_right_mono) simp
    with d show ?thesis by (simp add: pe pw_consts)
  next
    case False
    from m(2) have "(of_int m :: real) < of_int ((2::int) ^ 53)" by (simp only: of_int_less_iff)
    then have "(of_int m :: real) < 2 ^ 53" by simp
    from above_exponent[OF this, of e] have "of_int m * (2::real) powi e < 2 powi (e + 53)" by simp
    also from False have "(2::real) powi (e + 53) \<le> 2 powi (- 1)"
      by (intro power_int_increasing) simp_all
    finally have "of_int m * (2::real) powi e < 1 / 2" by simp
    with d show ?thesis by simp
  qed
qed

lemma times9000_bound:
  assumes "Math_random d"
  shows "0 \<le> fst (times9000 d) \<and> - 1074 \<le> snd (times9000 d) \<and> valof (times9000 d) \<le> 9000 - 1 / 2 ^ 39"
proof -
  obtain m e where d: "d = (m, e)" by (cases d)
  from assms d have m: "0 \<le> m * 9000" and e: "- 1074 \<le> e" by (simp_all add: Math_random_def)
  let ?x = "of_int (m * 9000) * (2::real) powi e"
  from random_below_one[OF assms] d have "of_int m * (2::real) powi e \<le> 1 - 1 / 2 ^ 53" by simp
  then have x: "?x < 9000 - 1 / 2 ^ 40" by simp
  have t: "times9000 d = round53 (m * 9000) e" by (simp add: times9000_def d)
  have "valof (round53 (m * 9000) e) \<le> 9000 - 1 / 2 ^ 39"
  proof (cases "?x < 2 ^ 13")
    case True
    have "valof (round53 (m * 9000) e) \<le> of_int (2 ^ 52) * 2 powi (- 39)"
      by (rule fl_upper[OF m e]) (use True x in \<open>simp_all add: pw_consts\<close>)
    then show ?thesis by (simp add: pw_consts)
  next
    case False
    have "valof (round53 (m * 9000) e) \<le> (of_int (9000 * 2 ^ 39) - 1) * 2 powi (- 39)"
      by (rule fl_half[OF m e]) (use False x in \<open>simp_all add: pw_consts\<close>)
    then show ?thesis by (simp add: pw_consts)
  qed
  with round53_nonneg[OF m e] t show ?thesis by simp
qed

lemma plus1000_exact:
  assumes "0 \<le> fst yd" and "- 1074 \<le> snd yd"
  obtains N f where "plus1000 yd = round53 N f" "0 \<le> N" "- 1074 \<le> f"
    "of_int N * (2::real) powi f = 1000 + valof yd"
proof (cases "snd yd \<le> 0")
  case True
  let ?N = "1000 * 2 ^ nat (- snd yd) + fst yd"
  have "(2::real) powi (snd yd + int (nat (- snd yd))) = 2 ^ nat (- snd yd) * 2 powi (snd yd)"
    by (rule pw_shift)
  with True have one: "(2::real) ^ nat (- snd yd) * 2 powi (snd yd) = 1" by simp
  have "of_int ?N * (2::real) powi (snd yd)
          = 1000 * (2 ^ nat (- snd yd) * 2 powi (snd yd)) + of_int (fst yd) * 2 powi (snd yd)"
    by (simp add: algebra_simps)
  then have a: "of_int ?N * (2::real) powi (snd yd) = 1000 + valof yd" by (simp only: one) (simp add: valof_def)
  from True have b: "plus1000 yd = round53 ?N (snd yd)" by (simp add: plus1000_def)
  from assms(1) have c: "0 \<le> ?N" by simp
  show ?thesis by (rule that[OF b c assms(2) a])
next
  case False
  let ?N = "1000 + fst yd * 2 ^ nat (snd yd)"
  from False have "(2::real) powi (snd yd) = 2 ^ nat (snd yd)" by (simp add: power_int_nonneg_exp)
  then have a: "of_int ?N * (2::real) powi 0 = 1000 + valof yd" by (simp add: valof_def)
  from False have b: "plus1000 yd = round53 ?N 0" by (simp add: plus1000_def)
  from assms(1) have c: "0 \<le> ?N" by simp
  have z: "- 1074 \<le> (0::int)" by simp
  show ?thesis by (rule that[OF b c z a])
qed

lemma plus1000_bound:
  assumes "0 \<le> fst yd" and "- 1074 \<le> snd yd" and "valof yd \<le> 9000 - 1 / 2 ^ 39"
  shows "1000 \<le> valof (plus1000 yd) \<and> valof (plus1000 yd) \<le> 10000 - 1 / 2 ^ 39"
proof -
  from assms(1) have y0: "0 \<le> valof yd" by (simp add: valof_def)
  from assms(1,2) obtain N f where N: "plus1000 yd = round53 N f" "0 \<le> N" "- 1074 \<le> f"
    "of_int N * (2::real) powi f = 1000 + valof yd" by (rule plus1000_exact)
  have "of_int (1000 * 2 ^ 39) * 2 powi (- 39) \<le> valof (round53 N f)"
    by (rule fl_lower[OF N(2,3)]) (use N(4) y0 assms(3) in \<open>simp_all add: pw_consts\<close>)
  moreover have "valof (round53 N f) \<le> of_int (10000 * 2 ^ 39 - 1) * 2 powi (- 39)"
    by (rule fl_upper[OF N(2,3)]) (use N(4) y0 assms(3) in \<open>simp_all add: pw_consts\<close>)
  ultimately show ?thesis by (simp add: N(1) pw_consts)
qed

lemma Math_floor_valof: "Math_floor d = \<lfloor>valof d\<rfloor>"
proof (cases "0 \<le> snd d")
  case True
  then have "valof d = of_int (fst d * 2 ^ nat (snd d))"
    by (simp add: valof_def power_int_nonneg_exp)
  with True show ?thesis by (simp only: Math_floor_def floor_of_int if_True)
next
  case False
  then have "(2::real) powi (snd d) = 1 / 2 ^ nat (- snd d)"
    using power_int_minus_divide[of "2::real" "- snd d"] by (simp add: power_int_nonneg_exp)
  then have "valof d = of_int (fst d) / of_int (2 ^ nat (- snd d))" by (simp add: valof_def)
  with False show ?thesis by (simp only: Math_floor_def floor_divide_of_int_eq if_False)
qed

lemma roomCode_range:
  assumes "Math_random d"
  shows "1000 \<le> Math_floor (plus1000 (times9000 d)) \<and> Math_floor (plus1000 (times9000 d)) \<le> 9999"
proof -
  from times9000_bound[OF assms]
  have "1000 \<le> valof (plus1000 (times9000 d)) \<and> valof (plus1000 (times9000 d)) \<le> 10000 - 1 / 2 ^ 39"
    by (intro plus1000_bound) simp_all
  then have "1000 \<le> valof (plus1000 (times9000 d))" "valof (plus1000 (times9000 d)) < 10000"
    by simp_all
  then have "1000 \<le> \<lfloor>valof (plus1000 (times9000 d))\<rfloor>" "\<lfloor>valof (plus1000 (times9000 d))\<rfloor> < 10000"
    by (simp_all only: numeral_le_floor floor_less_numeral)
  then show ?thesis by (simp add: Math_floor_valof)
qed

lemma topic_unfold: "topic c name = ''chkobba/'' @ c @ ''/'' @ name"
  by (simp add: topic_def)

text \<open>
  Claim C5. For every double \<open>r\<close> that \<^verbatim>\<open>Math.random()\<close> may return, from 0 up to but
  excluding 1, the code that \<^verbatim>\<open>startCloudHost\<close> generates in double-precision
  arithmetic, stores and connects with is the decimal rendering of an integer from 1000 to
  9999, four digit characters long.
  \<^verbatim>\<open>joinCloudGame\<close> returns the state unchanged, with no connection, when the entered code
  is not four characters long. Whatever events a host or a joiner connection of room
  \<open>c\<close> handles, every topic it subscribes or publishes to is one of
  \<^verbatim>\<open>chkobba/c/join\<close>, \<^verbatim>\<open>chkobba/c/offer\<close>, \<^verbatim>\<open>chkobba/c/answer\<close> and
  \<^verbatim>\<open>chkobba/c/restart\<close>.
\<close>

theorem room_codes_and_topics:
  "(Math_random r \<longrightarrow>
      (\<exists>n. 1000 \<le> n \<and> n \<le> 9999 \<and> roomCode r = toString n)
      \<and> length (roomCode r) = 4 \<and> set (roomCode r) \<subseteq> set ''0123456789''
      \<and> shortCode (fst (startCloudHost stringify r now s)) = roomCode r
      \<and> code (snd (startCloudHost stringify r now s)) = roomCode r)
   \<and> (length (inputCode s) \<noteq> 4 \<longrightarrow> joinCloudGame stringify now s = (s, None))
   \<and> set (topics_of (timeline (host_run stringify parse (snd (connectCloudHost c s)) hevs)))
        \<subseteq> {''chkobba/'' @ c @ ''/join'', ''chkobba/'' @ c @ ''/offer'',
            ''chkobba/'' @ c @ ''/answer'', ''chkobba/'' @ c @ ''/restart''}
   \<and> set (topics_of (timeline (joiner_run stringify parse (snd (connectCloudJoiner c s)) jevs)))
        \<subseteq> {''chkobba/'' @ c @ ''/join'', ''chkobba/'' @ c @ ''/offer'',
            ''chkobba/'' @ c @ ''/answer'', ''chkobba/'' @ c @ ''/restart''}"
proof (intro conjI impI)
  assume r: "Math_random r"
  let ?n = "Math_floor (plus1000 (times9000 r))"
  from roomCode_range[OF r] have rng: "1000 \<le> ?n \<and> ?n < 10000" by simp
  then show "\<exists>n. 1000 \<le> n \<and> n \<le> 9999 \<and> roomCode r = toString n"
    by (intro exI[of _ ?n]) (simp add: roomCode_def)
  from rng have "1000 \<le> nat ?n" "nat ?n \<le> 9999" by linarith+
  from digits_four[OF this] have d: "length (digits (nat ?n)) = 4 \<and> set (digits (nat ?n)) \<subseteq> set ''0123456789''" .
  from rng have "\<not> ?n < 0" by linarith
  then have "roomCode r = digits (nat ?n)" unfolding roomCode_def toString_def by (simp only: if_False)
  with d show "length (roomCode r) = 4" and "set (roomCode r) \<subseteq> set ''0123456789''"
    by (simp_all only:)
  show "shortCode (fst (startCloudHost stringify r now s)) = roomCode r"
    by (simp add: startCloudHost_def connectCloudHost_def initPC_def)
  show "code (snd (startCloudHost stringify r now s)) = roomCode r"
    by (simp add: startCloudHost_def connectCloudHost_def initPC_def)
next
  assume "length (inputCode s) \<noteq> 4"
  then show "joinCloudGame stringify now s = (s, None)" by (simp add: joinCloudGame_def)
next
  have "code (snd (connectCloudHost c s)) = c" "timeline (snd (connectCloudHost c s)) = []"
    by (simp_all add: connectCloudHost_def initPC_def)
  with host_run_topics[of stringify parse "snd (connectCloudHost c s)" hevs]
  show "set (topics_of (timeline (host_run stringify parse (snd (connectCloudHost c s)) hevs)))
        \<subseteq> {''chkobba/'' @ c @ ''/join'', ''chkobba/'' @ c @ ''/offer'',
            ''chkobba/'' @ c @ ''/answer'', ''chkobba/'' @ c @ ''/restart''}"
    by (simp add: relay_topics_def topic_unfold)
next
  have "code (snd (connectCloudJoiner c s)) = c" "timeline (snd (connectCloudJoiner c s)) = []"
    by (simp_all add: connectCloudJoiner_def initPC_def)
  with joiner_run_topics[of stringify parse "snd (connectCloudJoiner c s)" jevs]
  show "set (topics_of (timeline (joiner_run stringify parse (snd (connectCloudJoiner c s)) jevs)))
        \<subseteq> {''chkobba/'' @ c @ ''/join'', ''chkobba/'' @ c @ ''/offer'',
            ''chkobba/'' @ c @ ''/answer'', ''chkobba/'' @ c @ ''/restart''}"
    by (simp add: relay_topics_def topic_unfold)
qed

text \<open>
  The double \<open>0.3333333333333333\<close> is \<open>6004799503160661 * 2^-54\<close>: its product with 9000
  rounds up to 3000 and the code is 4000. The largest double below 1 gives 9999.
\<close>

lemma roomCode_third: "roomCode (6004799503160661, - 54) = ''4000''"
proof -
  have "Math_floor (plus1000 (times9000 (6004799503160661, - 54))) = 4000" by code_simp
  then show ?thesis by (simp add: roomCode_def toString_def digits.simps)
qed

lemma roomCode_last: "roomCode (9007199254740991, - 53) = ''9999''"
proof -
  have "Math_floor (plus1000 (times9000 (9007199254740991, - 53))) = 9999" by code_simp
  then show ?thesis by (simp add: roomCode_def toString_def digits.simps)
qed

lemma random_third: "Math_random (6004799503160661, - 54)"
  by (simp add: Math_random_def power_int_minus_divide)

theorem room_codes_and_topics_witness:
  "Math_random (6004799503160661, - 54) \<and> length (roomCode (6004799503160661, - 54)) = 4
   \<and> roomCode (6004799503160661, - 54) = ''4000''
   \<and> roomCode (9007199254740991, - 53) = ''9999''
   \<and> length (inputCode ((initial Map.empty)\<lparr>inputCode := ''123''\<rparr>)) \<noteq> 4
   \<and> joinCloudGame (\<lambda>j. ''{}'') 0 ((initial Map.empty)\<lparr>inputCode := ''123''\<rparr>)
       = ((initial Map.empty)\<lparr>inputCode := ''123''\<rparr>, None)"
proof -
  have g: "length (inputCode ((initial Map.empty)\<lparr>inputCode := ''123''\<rparr>)) \<noteq> 4" by simp
  note t = room_codes_and_topics[of "(6004799503160661, - 54)" "\<lambda>j. ''{}''" 0
             "(initial Map.empty)\<lparr>inputCode := ''123''\<rparr>"]
  from t[THEN conjunct1, rule_format, OF random_third]
  have "length (roomCode (6004799503160661, - 54)) = 4" by blast
  moreover from t[THEN conjunct2, THEN conjunct1, rule_format, OF g]
  have "joinCloudGame (\<lambda>j. ''{}'') 0 ((initial Map.empty)\<lparr>inputCode := ''123''\<rparr>)
       = ((initial Map.empty)\<lparr>inputCode := ''123''\<rparr>, None)" .
  ultimately show ?thesis using random_third g roomCode_third roomCode_last by blast
qed

subsection \<open>The joiner's descriptor exchange\<close>

text \<open>A history stays a history when the timeline grows.\<close>

lemma reached_mono: "reached parse tr t \<Longrightarrow> reached parse (tr @ xs) t"
  by (cases t) (fastforce intro: subseq_rev_drop_many)+


lemma subseq_snoc: "subseq xs tr \<Longrightarrow> subseq (xs @ [e]) (tr @ [e])"
  by (simp only: subseq_append)

lemma answers_follow_append:
  assumes old: "answers_follow parse c tr"
    and new: "\<And>k m. k < length os \<Longrightarrow> os ! k = Published (topic c ''answer'') m \<Longrightarrow>
                reached parse (tr @ take k os) AwaitTimer"
  shows "answers_follow parse c (tr @ os)"
  unfolding answers_follow_def
proof (intro allI impI)
  fix n m
  assume h: "n < length (tr @ os) \<and> (tr @ os) ! n = Published (topic c ''answer'') m"
  show "reached parse (take n (tr @ os)) AwaitTimer"
  proof (cases "n < length tr")
    case True
    with h have "tr ! n = Published (topic c ''answer'') m" by (simp add: nth_append)
    with old True have "reached parse (take n tr) AwaitTimer"
      unfolding answers_follow_def by blast
    with True show ?thesis by simp
  next
    case False
    with h have k: "n - length tr < length os" "os ! (n - length tr) = Published (topic c ''answer'') m"
      by (auto simp: nth_append)
    from new[OF k] False show ?thesis by simp
  qed
qed

lemma topic_distinct [simp]:
  "topic c ''join'' \<noteq> topic c ''answer''" "topic c ''restart'' \<noteq> topic c ''answer''"
  "topic c ''offer'' \<noteq> topic c ''answer''"
  by (simp_all add: topic_def)

lemma endsWith_append: "length ys = length suf \<Longrightarrow> endsWith (xs @ ys) suf = (ys = suf)"
  by (simp add: endsWith_def)

lemma restart_not_offer: "\<not> endsWith (topic c ''restart'') ''/offer''"
proof -
  have "topic c ''restart'' = (''chkobba/'' @ c @ ''/r'') @ ''estart''" by (simp add: topic_def)
  moreover have "\<not> endsWith ((''chkobba/'' @ c @ ''/r'') @ ''estart'') ''/offer''"
    by (subst endsWith_append) simp_all
  ultimately show ?thesis by simp
qed

lemma pending_subsets:
  "set (take i xs @ drop (Suc i) xs) \<subseteq> set xs"
  "set (xs[i := t]) \<subseteq> insert t (set xs)"
  using set_take_subset[of i xs] set_drop_subset[of "Suc i" xs] set_update_subset_insert[of xs i t]
  by auto

lemma joiner_inv_emit:
  assumes "joiner_inv parse c"
    and "\<And>k m. k < length os \<Longrightarrow> os ! k = Published (topic (code c) ''answer'') m \<Longrightarrow>
                reached parse (timeline c @ take k os) AwaitTimer"
    and "code c' = code c" and "timeline c' = timeline c @ os"
    and "\<And>t. t \<in> set (pending c') \<Longrightarrow> t \<in> set (pending c) \<or> reached parse (timeline c @ os) t"
  shows "joiner_inv parse c'"
proof -
  from assms(1) have a: "answers_follow parse (code c) (timeline c)"
    and p: "\<And>t. t \<in> set (pending c) \<Longrightarrow> reached parse (timeline c) t"
    by (simp_all add: joiner_inv_def)
  have "answers_follow parse (code c) (timeline c @ os)"
    by (rule answers_follow_append[OF a]) (rule assms(2))
  moreover have "reached parse (timeline c @ os) t" if "t \<in> set (pending c')" for t
    using assms(5)[OF that] p reached_mono by blast
  ultimately show ?thesis by (simp add: joiner_inv_def assms(3,4))
qed


text \<open>Each fulfilled step moves the history of an invocation one stage on.\<close>

lemma reached_remote:
  assumes "reached parse tr (AwaitSetRemote d)"
  shows "reached parse (tr @ [RemoteDescriptionSet d]) AwaitCreateAnswer"
proof -
  from assms obtain tp msg where h: "endsWith tp ''/offer''" "parse msg = Some d"
    "subseq [Received tp msg] tr" by auto
  from subseq_snoc[OF h(3), of "RemoteDescriptionSet d"]
  have "subseq [Received tp msg, RemoteDescriptionSet d] (tr @ [RemoteDescriptionSet d])" by simp
  with h show ?thesis by (simp del: subseq_Cons2_iff) blast
qed

lemma reached_answer:
  assumes "reached parse tr AwaitCreateAnswer"
  shows "reached parse (tr @ [AnswerCreated a]) (AwaitSetLocal a)"
proof -
  from assms obtain tp msg d where h: "endsWith tp ''/offer''" "parse msg = Some d"
    "subseq [Received tp msg, RemoteDescriptionSet d] tr" by auto
  from subseq_snoc[OF h(3), of "AnswerCreated a"]
  have "subseq [Received tp msg, RemoteDescriptionSet d, AnswerCreated a] (tr @ [AnswerCreated a])"
    by simp
  with h show ?thesis by (simp del: subseq_Cons2_iff) blast
qed

lemma reached_local:
  assumes "reached parse tr (AwaitSetLocal a)"
  shows "reached parse (tr @ [LocalDescriptionSet a]) AwaitTimer"
proof -
  from assms obtain tp msg d where h: "endsWith tp ''/offer''" "parse msg = Some d"
    "subseq [Received tp msg, RemoteDescriptionSet d, AnswerCreated a] tr" by auto
  from subseq_snoc[OF h(3), of "LocalDescriptionSet a"]
  have "subseq [Received tp msg, RemoteDescriptionSet d, AnswerCreated a, LocalDescriptionSet a]
          (tr @ [LocalDescriptionSet a])"
    by simp
  with h show ?thesis by (simp del: subseq_Cons2_iff) blast
qed

lemma reached_offer:
  assumes "endsWith tp ''/offer''" and "parse msg = Some d"
  shows "reached parse (tr @ [Received tp msg]) (AwaitSetRemote d)"
proof -
  have "subseq [Received tp msg] (tr @ [Received tp msg])"
    by (rule subseq_drop_many) simp
  with assms show ?thesis by (simp del: subseq_Cons2_iff) blast
qed

declare reached.simps [simp del]

text \<open>Every event of a joiner connection preserves the invariant.\<close>

lemma joiner_settled_inv:
  assumes inv: "joiner_inv parse c" and i: "i < length (pending c)"
  shows "joiner_inv parse (joiner_settled (pending c ! i) out i c)"
proof -
  from i have mem: "pending c ! i \<in> set (pending c)" by simp
  with inv have r: "reached parse (timeline c) (pending c ! i)" unfolding joiner_inv_def by blast
  show ?thesis
  proof (cases "pending c ! i")
    case AwaitTimer
    with inv show ?thesis by simp
  next
    case (AwaitSetRemote d)
    show ?thesis
    proof (cases out)
      case (Rejected e)
      show ?thesis
        by (rule joiner_inv_emit[OF inv, where os = "[Unhandled e]"])
           (use AwaitSetRemote Rejected pending_subsets(1)[of i "pending c"] in auto)
    next
      case (Fulfilled v)
      from r AwaitSetRemote have "reached parse (timeline c @ [RemoteDescriptionSet d]) AwaitCreateAnswer"
        by (simp add: reached_remote)
      then show ?thesis
        by (intro joiner_inv_emit[OF inv, where os = "[RemoteDescriptionSet d]"])
           (use AwaitSetRemote Fulfilled pending_subsets(2)[of "pending c" i AwaitCreateAnswer] in auto)
    qed
  next
    case AwaitCreateAnswer
    show ?thesis
    proof (cases out)
      case (Rejected e)
      show ?thesis
        by (rule joiner_inv_emit[OF inv, where os = "[Unhandled e]"])
           (use AwaitCreateAnswer Rejected pending_subsets(1)[of i "pending c"] in auto)
    next
      case (Fulfilled a)
      from r AwaitCreateAnswer have "reached parse (timeline c @ [AnswerCreated a]) (AwaitSetLocal a)"
        by (simp add: reached_answer)
      then show ?thesis
        by (intro joiner_inv_emit[OF inv, where os = "[AnswerCreated a]"])
           (use AwaitCreateAnswer Fulfilled pending_subsets(2)[of "pending c" i "AwaitSetLocal a"] in auto)
    qed
  next
    case (AwaitSetLocal a)
    show ?thesis
    proof (cases out)
      case (Rejected e)
      show ?thesis
        by (rule joiner_inv_emit[OF inv, where os = "[Unhandled e]"])
           (use AwaitSetLocal Rejected pending_subsets(1)[of i "pending c"] in auto)
    next
      case (Fulfilled v)
      from r AwaitSetLocal have "reached parse (timeline c @ [LocalDescriptionSet a]) AwaitTimer"
        by (simp add: reached_local)
      then show ?thesis
        by (intro joiner_inv_emit[OF inv, where os = "[LocalDescriptionSet a]"])
           (use AwaitSetLocal Fulfilled pending_subsets(2)[of "pending c" i AwaitTimer] in auto)
    qed
  qed
qed

lemma joiner_step_inv:
  assumes inv: "joiner_inv parse c"
  shows "joiner_inv parse (joiner_step stringify parse c ev)"
proof (cases ev)
  case JConnect
  show ?thesis
    by (rule joiner_inv_emit[OF inv, where os = "[Subscribed (topic (code c) ''offer''),
          Subscribed (topic (code c) ''restart''), Published (topic (code c) ''join'') ''hello'']"])
       (use JConnect in \<open>auto simp: less_Suc_eq\<close>)
next
  case (JMessage tp msg)
  show ?thesis
  proof (cases "endsWith tp ''/restart''")
    case True
    show ?thesis
      by (rule joiner_inv_emit[OF inv, where os = "[Received tp msg,
            Published (topic (code c) ''join'') ''hello_again'']"])
         (use JMessage True in \<open>auto simp: less_Suc_eq\<close>)
  next
    case False
    show ?thesis
    proof (cases "endsWith tp ''/offer''")
      case no: False
      show ?thesis
        by (rule joiner_inv_emit[OF inv, where os = "[Received tp msg]"])
           (use JMessage False no in auto)
    next
      case offer: True
      show ?thesis
      proof (cases "parse msg")
        case None
        show ?thesis
          by (rule joiner_inv_emit[OF inv, where os = "[Received tp msg, Unhandled SyntaxError]"])
             (use JMessage False offer None in \<open>auto simp: less_Suc_eq\<close>)
      next
        case (Some d)
        have "reached parse (timeline c @ [Received tp msg]) (AwaitSetRemote d)"
          using offer Some by (rule reached_offer)
        then show ?thesis
          by (intro joiner_inv_emit[OF inv, where os = "[Received tp msg]"])
             (use JMessage False offer Some in auto)
      qed
    qed
  qed
next
  case (JSettle i out)
  with joiner_settled_inv[OF inv, of i out] inv show ?thesis by simp
next
  case (JTimer i)
  show ?thesis
  proof (cases "i < length (pending c) \<and> pending c ! i = AwaitTimer")
    case False
    with JTimer inv show ?thesis by auto
  next
    case True
    then have "AwaitTimer \<in> set (pending c)" by (metis nth_mem)
    with inv have r: "reached parse (timeline c) AwaitTimer" unfolding joiner_inv_def by blast
    show ?thesis
      by (rule joiner_inv_emit[OF inv, where os = "[Published (topic (code c) ''answer'')
            (stringify (localDescription (pc c)))]"])
         (use JTimer True r pending_subsets(1)[of i "pending c"] in auto)
  qed
qed

lemma joiner_run_inv:
  "joiner_inv parse c \<Longrightarrow> joiner_inv parse (joiner_run stringify parse c evs)"
  unfolding joiner_run_def
  by (induction evs arbitrary: c) (simp_all add: joiner_step_inv)

text \<open>
  Claim C1. When the relay client of a joiner connects, the callback subscribes to the offer
  and restart topics and publishes a join request on \<^verbatim>\<open>chkobba/<code>/join\<close>. In every
  run of a joiner connection, whatever events arrive and however the browser settles the
  promises, each publication on \<^verbatim>\<open>chkobba/<code>/answer\<close> has before it, in this order:
  the receipt of a message on a topic ending in \<^verbatim>\<open>/offer\<close> (which is
  \<^verbatim>\<open>chkobba/<code>/offer\<close> when it is one of the two topics subscribed to), the parsed
  payload of that message set as remote description, an answer created, and that answer set
  as local description. So no answer is published before an offer has arrived.
\<close>

theorem joiner_answer_after_offer:
  "timeline (joiner_step stringify parse k JConnect) =
     timeline k @ [Subscribed (topic (code k) ''offer''), Subscribed (topic (code k) ''restart''),
                   Published (topic (code k) ''join'') ''hello'']
   \<and> (\<forall>n m. n < length (timeline (joiner_run stringify parse (snd (connectCloudJoiner c s)) evs)) \<and>
            timeline (joiner_run stringify parse (snd (connectCloudJoiner c s)) evs) ! n
              = Published (topic c ''answer'') m \<longrightarrow>
          (\<exists>tp msg d a.
              endsWith tp ''/offer''
              \<and> (tp = topic c ''offer'' \<or> tp = topic c ''restart'' \<longrightarrow> tp = topic c ''offer'')
              \<and> parse msg = Some d
              \<and> subseq [Received tp msg, RemoteDescriptionSet d, AnswerCreated a, LocalDescriptionSet a]
                   (take n (timeline (joiner_run stringify parse (snd (connectCloudJoiner c s)) evs)))))"
proof (intro conjI allI impI)
  show "timeline (joiner_step stringify parse k JConnect) =
     timeline k @ [Subscribed (topic (code k) ''offer''), Subscribed (topic (code k) ''restart''),
                   Published (topic (code k) ''join'') ''hello'']"
    by simp
next
  fix n m
  let ?J = "joiner_run stringify parse (snd (connectCloudJoiner c s)) evs"
  assume h: "n < length (timeline ?J) \<and> timeline ?J ! n = Published (topic c ''answer'') m"
  have "joiner_inv parse (snd (connectCloudJoiner c s))"
    by (simp add: joiner_inv_def answers_follow_def connectCloudJoiner_def initPC_def)
  then have "joiner_inv parse ?J" by (rule joiner_run_inv)
  moreover have "code ?J = c"
    using joiner_run_topics[of stringify parse "snd (connectCloudJoiner c s)" evs]
    by (simp add: connectCloudJoiner_def initPC_def)
  ultimately have "answers_follow parse c (timeline ?J)" by (simp add: joiner_inv_def)
  with h have "reached parse (take n (timeline ?J)) AwaitTimer"
    unfolding answers_follow_def by blast
  then obtain tp msg d a where r: "endsWith tp ''/offer''" "parse msg = Some d"
    "subseq [Received tp msg, RemoteDescriptionSet d, AnswerCreated a, LocalDescriptionSet a]
       (take n (timeline ?J))"
    unfolding reached.simps by blast
  from r(1) have "tp \<noteq> topic c ''restart''" using restart_not_offer by blast
  with r show "\<exists>tp msg d a.
              endsWith tp ''/offer''
              \<and> (tp = topic c ''offer'' \<or> tp = topic c ''restart'' \<longrightarrow> tp = topic c ''offer'')
              \<and> parse msg = Some d
              \<and> subseq [Received tp msg, RemoteDescriptionSet d, AnswerCreated a, LocalDescriptionSet a]
                   (take n (timeline ?J))"
    by blast
qed

theorem joiner_answer_after_offer_witness:
  \<open>timeline (joiner_run (\<lambda>j. ''{"type":"answer","sdp":"a"}'')
        [''{"type":"offer","sdp":"o"}'' \<mapsto> JObj [(''type'', JStr ''offer''), (''sdp'', JStr ''o'')]]
        (snd (connectCloudJoiner ''1234'' (initial Map.empty)))
        [JConnect, JMessage ''chkobba/1234/offer'' ''{"type":"offer","sdp":"o"}'',
         JSettle 0 (Fulfilled JNull),
         JSettle 0 (Fulfilled (JObj [(''type'', JStr ''answer''), (''sdp'', JStr ''a'')])),
         JSettle 0 (Fulfilled JNull), JTimer 0]) ! 7
     = Published (topic ''1234'' ''answer'') ''{"type":"answer","sdp":"a"}''
   \<and> (\<exists>tp msg d a.
         endsWith tp ''/offer''
         \<and> (tp = topic ''1234'' ''offer'' \<or> tp = topic ''1234'' ''restart'' \<longrightarrow> tp = topic ''1234'' ''offer'')
         \<and> [''{"type":"offer","sdp":"o"}'' \<mapsto> JObj [(''type'', JStr ''offer''), (''sdp'', JStr ''o'')]] msg = Some d
         \<and> subseq [Received tp msg, RemoteDescriptionSet d, AnswerCreated a, LocalDescriptionSet a]
              (take 7 (timeline (joiner_run (\<lambda>j. ''{"type":"answer","sdp":"a"}'')
                 [''{"type":"offer","sdp":"o"}'' \<mapsto> JObj [(''type'', JStr ''offer''), (''sdp'', JStr ''o'')]]
                 (snd (connectCloudJoiner ''1234'' (initial Map.empty)))
                 [JConnect, JMessage ''chkobba/1234/offer'' ''{"type":"offer","sdp":"o"}'',
                  JSettle 0 (Fulfilled JNull),
                  JSettle 0 (Fulfilled (JObj [(''type'', JStr ''answer''), (''sdp'', JStr ''a'')])),
                  JSettle 0 (Fulfilled JNull), JTimer 0]))))\<close>
proof -
  let ?pr = \<open>\<lambda>j::json. ''{"type":"answer","sdp":"a"}''\<close>
  let ?pa = \<open>[''{"type":"offer","sdp":"o"}'' \<mapsto> JObj [(''type'', JStr ''offer''), (''sdp'', JStr ''o'')]]\<close>
  let ?evs = \<open>[JConnect, JMessage ''chkobba/1234/offer'' ''{"type":"offer","sdp":"o"}'',
         JSettle 0 (Fulfilled JNull),
         JSettle 0 (Fulfilled (JObj [(''type'', JStr ''answer''), (''sdp'', JStr ''a'')])),
         JSettle 0 (Fulfilled JNull), JTimer 0]\<close>
  let ?J = "joiner_run ?pr ?pa (snd (connectCloudJoiner ''1234'' (initial Map.empty))) ?evs"
  have e: \<open>timeline ?J =
     [Subscribed ''chkobba/1234/offer'', Subscribed ''chkobba/1234/restart'',
      Published ''chkobba/1234/join'' ''hello'',
      Received ''chkobba/1234/offer'' ''{"type":"offer","sdp":"o"}'',
      RemoteDescriptionSet (JObj [(''type'', JStr ''offer''), (''sdp'', JStr ''o'')]),
      AnswerCreated (JObj [(''type'', JStr ''answer''), (''sdp'', JStr ''a'')]),
      LocalDescriptionSet (JObj [(''type'', JStr ''answer''), (''sdp'', JStr ''a'')]),
      Published ''chkobba/1234/answer'' ''{"type":"answer","sdp":"a"}'']\<close>
    by (simp add: joiner_run_def connectCloudJoiner_def initPC_def emit_def continue_def finish_def
          setLocal_def setRemote_def topic_def endsWith_def initial_def new_RTCPeerConnection_def)
  have h: \<open>7 < length (timeline ?J) \<and>
           timeline ?J ! 7 = Published (topic ''1234'' ''answer'') ''{"type":"answer","sdp":"a"}''\<close>
    by (simp add: e topic_def)
  from joiner_answer_after_offer[of "?pr" "?pa" _ "''1234''" "initial Map.empty" "?evs",
         THEN conjunct2, rule_format, OF h] h
  show ?thesis by blast
qed

subsection \<open>Messages on the peer data channel\<close>

text \<open>What \<^verbatim>\<open>sendSync\<close> and the handlers pass to the channel.\<close>

lemma sendSync_sent:
  "sent (sendSync stringify ty payload s) =
     (if readyState s = Some ''open''
      then sent s @ [stringify (JObj (setProps [(''type'', JStr ty)] payload))] else sent s)"
  by (simp add: sendSync_def)

lemma sendSync_other [simp]:
  "strokes (sendSync stringify ty payload s) = strokes s"
  "view (sendSync stringify ty payload s) = view s"
  "readyState (sendSync stringify ty payload s) = readyState s"
  by (simp_all add: sendSync_def)

lemma setProps_empty [simp]: "setProps fs [] = fs"
  by (simp add: setProps_def)

lemma setProps_stroke [simp]:
  "setProps [(''type'', v)] [(''stroke'', w)] = [(''type'', v), (''stroke'', w)]"
  by (simp add: setProps_def setProp_def)

lemma onmessage_sent [simp]: "sent (onmessage parse d s) = sent s"
  by (auto simp: onmessage_def onmessage_try_def handleIncomingPing_def
           split: sum.splits option.splits if_splits)

lemma handleStrokeComplete_sent:
  "sent (handleStrokeComplete stringify now pts s) =
     (if readyState s = Some ''open''
      then sent s @ [stringify (JObj [(''type'', JStr ''SYNC_STROKE''), (''stroke'', newStroke now pts)])]
      else sent s)"
  by (simp add: handleStrokeComplete_def sendSync_sent)

lemma handleStrokeComplete_strokes [simp]:
  "strokes (handleStrokeComplete stringify now pts s) = strokes s @ [newStroke now pts]"
  by (simp add: handleStrokeComplete_def)

text \<open>No event adds to \<open>sent\<close> anything but a message of the four shapes.\<close>

lemma step_sent:
  "m \<in> set (sent (snd (step stringify parse bs ev))) \<Longrightarrow>
   m \<in> set (sent (snd bs)) \<or> (\<exists>obj. m = stringify obj \<and> peer_shape obj)"
proof (cases bs)
  case (Pair b s)
  assume m: "m \<in> set (sent (snd (step stringify parse bs ev)))"
  show ?thesis
  proof (cases ev)
    case ClickClearBoard
    with m Pair show ?thesis
      by (auto simp: clearBoard_def sendSync_sent peer_shape_def split: if_splits)
  next
    case ClickPing
    with m Pair show ?thesis
      by (auto simp: triggerPing_def sendSync_sent peer_shape_def split: if_splits)
  next
    case HeartbeatTick
    with m Pair show ?thesis
      by (auto simp: heartbeat_def peer_shape_def split: if_splits)
  next
    case (PointerUp now)
    with m Pair show ?thesis
      by (auto simp: endDrawing_def handleStrokeComplete_sent peer_shape_def split: if_splits)
  next
    case (ConnectionStateChange cs)
    with m Pair show ?thesis by (auto simp: onconnectionstatechange_def split: if_splits)
  next
    case (IceConnectionStateChange cs)
    with m Pair show ?thesis by (auto simp: oniceconnectionstatechange_def split: if_splits)
  qed (use m Pair in \<open>auto simp: flashTimeout_def onopen_def split: if_splits\<close>)
qed

lemma run_sent:
  "m \<in> set (sent (snd (run stringify parse bs evs))) \<Longrightarrow>
   m \<in> set (sent (snd bs)) \<or> (\<exists>obj. m = stringify obj \<and> peer_shape obj)"
proof (induction evs arbitrary: bs)
  case Nil
  then show ?case by (simp add: run_def)
next
  case (Cons ev evs)
  from Cons.prems have "m \<in> set (sent (snd (run stringify parse (step stringify parse bs ev) evs)))"
    by (simp add: run_def)
  from Cons.IH[OF this] step_sent[of m stringify parse bs ev] show ?case by blast
qed

text \<open>
  Claim C8, as amended. Whatever events the game view handles, every string passed to the
  data channel is the JSON text of an object of one of exactly four shapes:
  \<^verbatim>\<open>{type: 'CLEAR_BOARD'}\<close>, \<^verbatim>\<open>{type: 'PING'}\<close>, \<^verbatim>\<open>{type: 'HEARTBEAT'}\<close>, or
  \<^verbatim>\<open>{type: 'SYNC_STROKE', stroke}\<close> with a stroke built by \<^verbatim>\<open>handleStrokeComplete\<close>.
\<close>

theorem peer_messages_four_shapes:
  "\<forall>m \<in> set (sent (snd (run stringify parse (b, s) evs))).
     m \<in> set (sent s) \<or>
     (\<exists>obj. m = stringify obj \<and>
       (obj = JObj [(''type'', JStr ''CLEAR_BOARD'')] \<or>
        obj = JObj [(''type'', JStr ''PING'')] \<or>
        obj = JObj [(''type'', JStr ''HEARTBEAT'')] \<or>
        (\<exists>now points. obj = JObj [(''type'', JStr ''SYNC_STROKE''), (''stroke'', newStroke now points)])))"
proof
  fix m assume "m \<in> set (sent (snd (run stringify parse (b, s) evs)))"
  from run_sent[OF this] show "m \<in> set (sent s) \<or>
     (\<exists>obj. m = stringify obj \<and>
       (obj = JObj [(''type'', JStr ''CLEAR_BOARD'')] \<or>
        obj = JObj [(''type'', JStr ''PING'')] \<or>
        obj = JObj [(''type'', JStr ''HEARTBEAT'')] \<or>
        (\<exists>now points. obj = JObj [(''type'', JStr ''SYNC_STROKE''), (''stroke'', newStroke now points)])))"
    by (simp add: peer_shape_def)
qed

text \<open>A run from page load in which the channel opens and the heartbeat interval fires once.\<close>

lemma heartbeat_run:
  "sent (snd (run type_tag Map.empty (board_initial, initial Map.empty)
                [DataChannel ''open'', ChannelOpen, HeartbeatTick]))
   = [type_tag (JObj [(''type'', JStr ''HEARTBEAT'')])]"
  by (simp add: run_def initial_def onopen_def heartbeat_def)

theorem peer_messages_four_shapes_witness:
  "type_tag (JObj [(''type'', JStr ''HEARTBEAT'')])
     \<in> set (sent (snd (run type_tag Map.empty (board_initial, initial Map.empty)
                        [DataChannel ''open'', ChannelOpen, HeartbeatTick])))
   \<and> (\<exists>obj. type_tag (JObj [(''type'', JStr ''HEARTBEAT'')]) = type_tag obj \<and>
       (obj = JObj [(''type'', JStr ''CLEAR_BOARD'')] \<or>
        obj = JObj [(''type'', JStr ''PING'')] \<or>
        obj = JObj [(''type'', JStr ''HEARTBEAT'')] \<or>
        (\<exists>now points. obj = JObj [(''type'', JStr ''SYNC_STROKE''), (''stroke'', newStroke now points)])))"
proof -
  have h: "type_tag (JObj [(''type'', JStr ''HEARTBEAT'')])
     \<in> set (sent (snd (run type_tag Map.empty (board_initial, initial Map.empty)
                        [DataChannel ''open'', ChannelOpen, HeartbeatTick])))"
    by (simp add: heartbeat_run)
  have e: "sent (initial Map.empty) = []" by (simp add: initial_def)
  from peer_messages_four_shapes[of type_tag Map.empty board_initial "initial Map.empty"
         "[DataChannel ''open'', ChannelOpen, HeartbeatTick]", THEN bspec, OF h] e h
  show ?thesis by simp
qed

text \<open>
  The claim as written, with three shapes, fails on that run: the message sent by the
  heartbeat of line 146 has type \<^verbatim>\<open>HEARTBEAT\<close>.
\<close>

theorem heartbeat_counterexample:
  "sent (snd (run type_tag Map.empty (board_initial, initial Map.empty)
                [DataChannel ''open'', ChannelOpen, HeartbeatTick]))
     = [type_tag (JObj [(''type'', JStr ''HEARTBEAT'')])]
   \<and> \<not> (\<exists>obj. type_tag (JObj [(''type'', JStr ''HEARTBEAT'')]) = type_tag obj \<and>
             field obj ''type'' \<in> {Some (JStr ''SYNC_STROKE''), Some (JStr ''CLEAR_BOARD''),
                                   Some (JStr ''PING'')})"
  by (auto simp: heartbeat_run type_tag_def field_def)

subsection \<open>What happens on connection\<close>

text \<open>
  What one event adds to \<open>sent\<close>: a clear-board, ping or heartbeat message, or, at the end
  of a gesture with a path that is not empty, the stroke just drawn. No other event sends.
\<close>

lemma step_sent_exact:
  "sent (snd (step stringify parse (b, s) ev)) = sent s @
     (case ev of
        ClickClearBoard \<Rightarrow>
          if view s = GAME \<and> readyState s = Some ''open''
          then [stringify (JObj [(''type'', JStr ''CLEAR_BOARD'')])] else []
      | ClickPing \<Rightarrow>
          if view s = GAME \<and> readyState s = Some ''open''
          then [stringify (JObj [(''type'', JStr ''PING'')])] else []
      | HeartbeatTick \<Rightarrow>
          if view s = GAME \<and> readyState s = Some ''open''
          then [stringify (JObj [(''type'', JStr ''HEARTBEAT'')])] else []
      | PointerUp now \<Rightarrow>
          if view s = GAME \<and> isDrawing b \<and> currentPath b \<noteq> [] \<and> readyState s = Some ''open''
          then [stringify (JObj [(''type'', JStr ''SYNC_STROKE''),
                                 (''stroke'', newStroke now (currentPath b))])]
          else []
      | _ \<Rightarrow> [])"
proof (cases ev)
  case ClickClearBoard
  then show ?thesis by (simp add: clearBoard_def sendSync_sent)
next
  case ClickPing
  then show ?thesis by (simp add: triggerPing_def sendSync_sent)
next
  case HeartbeatTick
  then show ?thesis by (simp add: heartbeat_def)
next
  case (PointerUp now)
  then show ?thesis by (simp add: endDrawing_def handleStrokeComplete_sent)
next
  case (ConnectionStateChange cs)
  then show ?thesis by (simp add: onconnectionstatechange_def)
next
  case (IceConnectionStateChange cs)
  then show ?thesis by (simp add: oniceconnectionstatechange_def)
qed (simp_all add: flashTimeout_def onopen_def)

text \<open>
  Claim C2, as amended. The handler of the data channel's opening changes the status text and
  the view and nothing else, and the handler of the connection state, on \<^verbatim>\<open>connected\<close>,
  changes the status text, the view, the reconnecting flag and the relay client and nothing
  else; the opening itself only adds the new \<^verbatim>\<open>readyState\<close>. So on connection nothing
  is passed to the data channel and the strokes list is as before: strokes held before the
  connection are not transmitted. For every event, what is passed to the data channel is
  determined as follows: a stroke is transmitted only by the end of a local gesture whose
  path is not empty, in the game view while the data channel is open, and it is the stroke of
  that gesture alone; the only other transmissions are the clear-board, ping and heartbeat
  messages.
\<close>

theorem connection_sends_nothing:
  "onopen s = s\<lparr>status := ''Connected'', view := GAME\<rparr>
   \<and> onconnectionstatechange ''connected'' s
       = s\<lparr>status := ''Connected'', view := GAME, isReconnecting := False, relay := False\<rparr>
   \<and> step stringify parse (b, s) ChannelOpen
       = (b, if readyState s = None then s
             else s\<lparr>readyState := Some ''open'', status := ''Connected'', view := GAME\<rparr>)
   \<and> step stringify parse (b, s) (ConnectionStateChange ''connected'')
       = (b, s\<lparr>status := ''Connected'', view := GAME, isReconnecting := False, relay := False\<rparr>)
   \<and> sent (snd (step stringify parse (b, s) ev)) = sent s @
       (case ev of
          ClickClearBoard \<Rightarrow>
            if view s = GAME \<and> readyState s = Some ''open''
            then [stringify (JObj [(''type'', JStr ''CLEAR_BOARD'')])] else []
        | ClickPing \<Rightarrow>
            if view s = GAME \<and> readyState s = Some ''open''
            then [stringify (JObj [(''type'', JStr ''PING'')])] else []
        | HeartbeatTick \<Rightarrow>
            if view s = GAME \<and> readyState s = Some ''open''
            then [stringify (JObj [(''type'', JStr ''HEARTBEAT'')])] else []
        | PointerUp now \<Rightarrow>
            if view s = GAME \<and> isDrawing b \<and> currentPath b \<noteq> [] \<and> readyState s = Some ''open''
            then [stringify (JObj [(''type'', JStr ''SYNC_STROKE''),
                                   (''stroke'', newStroke now (currentPath b))])]
            else []
        | _ \<Rightarrow> [])
   \<and> strokes (snd (step stringify parse (b, s) ChannelOpen)) = strokes s
   \<and> strokes (snd (step stringify parse (b, s) (ConnectionStateChange ''connected''))) = strokes s"
proof (intro conjI)
  show "sent (snd (step stringify parse (b, s) ev)) = sent s @
       (case ev of
          ClickClearBoard \<Rightarrow>
            if view s = GAME \<and> readyState s = Some ''open''
            then [stringify (JObj [(''type'', JStr ''CLEAR_BOARD'')])] else []
        | ClickPing \<Rightarrow>
            if view s = GAME \<and> readyState s = Some ''open''
            then [stringify (JObj [(''type'', JStr ''PING'')])] else []
        | HeartbeatTick \<Rightarrow>
            if view s = GAME \<and> readyState s = Some ''open''
            then [stringify (JObj [(''type'', JStr ''HEARTBEAT'')])] else []
        | PointerUp now \<Rightarrow>
            if view s = GAME \<and> isDrawing b \<and> currentPath b \<noteq> [] \<and> readyState s = Some ''open''
            then [stringify (JObj [(''type'', JStr ''SYNC_STROKE''),
                                   (''stroke'', newStroke now (currentPath b))])]
            else []
        | _ \<Rightarrow> [])"
    by (rule step_sent_exact)
qed (simp_all add: onopen_def onconnectionstatechange_def)

text \<open>
  The claim as written fails on this run from page load: the channel opens and closes, a
  stroke is drawn while it is closed, a new channel opens and the connection state becomes
  \<^verbatim>\<open>connected\<close>. The stroke is held and nothing has been sent.
\<close>

theorem connection_resync_counterexample:
  "strokes (snd (run type_tag Map.empty (board_initial, initial Map.empty)
      [DataChannel ''open'', ChannelOpen, ChannelClose,
       PointerDown (Some \<lparr>rect_left = 0, rect_top = 0, rect_width = 400, rect_height = 300\<rparr>) (MouseEvent 100 150),
       PointerUp 1700000000000,
       DataChannel ''open'', ChannelOpen, ConnectionStateChange ''connected'']))
     = [newStroke 1700000000000 [\<lparr>x = 1 / 4, y = 1 / 2\<rparr>]]
   \<and> sent (snd (run type_tag Map.empty (board_initial, initial Map.empty)
      [DataChannel ''open'', ChannelOpen, ChannelClose,
       PointerDown (Some \<lparr>rect_left = 0, rect_top = 0, rect_width = 400, rect_height = 300\<rparr>) (MouseEvent 100 150),
       PointerUp 1700000000000,
       DataChannel ''open'', ChannelOpen, ConnectionStateChange ''connected'']))
     = []"
  by (simp add: run_def initial_def board_initial_def onopen_def onconnectionstatechange_def
        startDrawing_def push_coords_def endDrawing_def handleStrokeComplete_def sendSync_def)

subsection \<open>Strokes drawn locally\<close>

text \<open>The path of a gesture is the list of captured points, in the order of the events.\<close>

lemma push_coords_path:
  "currentPath (push_coords r b) =
     currentPath b @ (case r of Inr (Some pt) \<Rightarrow> [pt] | _ \<Rightarrow> [])"
  "isDrawing (push_coords r b) = isDrawing b"
  by (auto simp: push_coords_def split: sum.splits option.splits)

lemma moves_path:
  "isDrawing b \<Longrightarrow>
   currentPath (foldl (\<lambda>b' (canvas, e). moveDrawing canvas e b') b ms) = currentPath b @ captured ms
   \<and> isDrawing (foldl (\<lambda>b' (canvas, e). moveDrawing canvas e b') b ms)"
proof (induction ms arbitrary: b)
  case Nil
  then show ?case by simp
next
  case (Cons m ms)
  obtain canvas e where m: "m = (canvas, e)" by (cases m)
  let ?b = "moveDrawing canvas e b"
  from Cons.prems have d: "isDrawing ?b" by (simp add: moveDrawing_def push_coords_path)
  from Cons.prems have p: "currentPath ?b = currentPath b @ captured [(canvas, e)]"
    by (auto simp: moveDrawing_def push_coords_path split: sum.splits option.splits)
  have c: "captured ((canvas, e) # ms) = captured [(canvas, e)] @ captured ms"
    by (auto split: sum.splits option.splits)
  from Cons.IH[OF d] p c m show ?case by simp
qed

lemma gesture_path:
  "currentPath (gesture d ms b) = captured (d # ms) \<and> isDrawing (gesture d ms b)"
proof -
  obtain canvas e where d: "d = (canvas, e)" by (cases d)
  let ?b = "startDrawing canvas e b"
  have s: "isDrawing ?b" "currentPath ?b = captured [(canvas, e)]"
    by (auto simp: startDrawing_def push_coords_path split: sum.splits option.splits)
  have c: "captured ((canvas, e) # ms) = captured [(canvas, e)] @ captured ms"
    by (auto split: sum.splits option.splits)
  from moves_path[OF s(1), of ms] s(2) c d show ?thesis by (simp add: gesture_def)
qed

text \<open>The end of a gesture, and a gesture as a run of pointer events.\<close>

lemma endDrawing_cases:
  "snd (endDrawing stringify now (b, s)) =
     (if isDrawing b \<and> currentPath b \<noteq> [] then handleStrokeComplete stringify now (currentPath b) s
      else s)"
  by (simp add: endDrawing_def)

lemma moves_run:
  "view s = GAME \<Longrightarrow>
   run stringify parse (b, s) (map (\<lambda>(canvas, e). PointerMove canvas e) ms)
     = (foldl (\<lambda>b' (canvas, e). moveDrawing canvas e b') b ms, s)"
  by (induction ms arbitrary: b) (auto simp: run_def)

lemma gesture_run:
  assumes "view s = GAME"
  shows "run stringify parse (b, s)
           (PointerDown (fst d) (snd d) # map (\<lambda>(canvas, e). PointerMove canvas e) ms @ [PointerUp now])
         = endDrawing stringify now (gesture d ms b, s)"
proof -
  have "run stringify parse (b, s)
           (PointerDown (fst d) (snd d) # map (\<lambda>(canvas, e). PointerMove canvas e) ms @ [PointerUp now])
        = step stringify parse
            (run stringify parse (startDrawing (fst d) (snd d) b, s)
               (map (\<lambda>(canvas, e). PointerMove canvas e) ms)) (PointerUp now)"
    using assms by (simp add: run_def)
  with assms show ?thesis by (simp add: moves_run gesture_def)
qed

text \<open>
  Claim C9. During a gesture the board collects exactly the points that \<^verbatim>\<open>getCoords\<close>
  returned, in the order of the pointer events, and in the game view the events of a gesture
  followed by its end run \<^verbatim>\<open>endDrawing\<close> on that path. When at least one point was
  captured, the end of the gesture appends one stroke to the strokes list, and the points of
  that stroke are the captured points in their order, so the stroke is not empty. When no
  point was captured the application state is unchanged: no stroke is added and nothing is
  sent. From any board state, \<^verbatim>\<open>endDrawing\<close> either leaves the application state as it
  was or appends a stroke whose path is not empty.
\<close>

theorem local_strokes_nonempty_ordered:
  "currentPath (gesture d ms b) = captured (d # ms)
   \<and> (view s = GAME \<longrightarrow>
        run stringify parse (b, s)
          (PointerDown (fst d) (snd d) # map (\<lambda>(canvas, e). PointerMove canvas e) ms @ [PointerUp now])
        = endDrawing stringify now (gesture d ms b, s))
   \<and> (captured (d # ms) \<noteq> [] \<longrightarrow>
        strokes (snd (endDrawing stringify now (gesture d ms b, s)))
          = strokes s @ [newStroke now (captured (d # ms))]
        \<and> field (newStroke now (captured (d # ms))) ''points''
          = Some (JArr (map Point_json (captured (d # ms)))))
   \<and> (captured (d # ms) = [] \<longrightarrow> snd (endDrawing stringify now (gesture d ms b, s)) = s)
   \<and> (snd (endDrawing stringify now (b, s)) = s
        \<or> currentPath b \<noteq> [] \<and>
          strokes (snd (endDrawing stringify now (b, s))) = strokes s @ [newStroke now (currentPath b)])"
proof (intro conjI impI)
  show "currentPath (gesture d ms b) = captured (d # ms)" by (simp add: gesture_path)
  show "run stringify parse (b, s)
          (PointerDown (fst d) (snd d) # map (\<lambda>(canvas, e). PointerMove canvas e) ms @ [PointerUp now])
        = endDrawing stringify now (gesture d ms b, s)" if "view s = GAME"
    using that by (rule gesture_run)
  show "strokes (snd (endDrawing stringify now (gesture d ms b, s)))
          = strokes s @ [newStroke now (captured (d # ms))]" if "captured (d # ms) \<noteq> []"
    using that gesture_path[of d ms b] by (simp add: endDrawing_cases)
  show "field (newStroke now (captured (d # ms))) ''points''
          = Some (JArr (map Point_json (captured (d # ms))))"
    by (simp add: field_def newStroke_def)
  show "snd (endDrawing stringify now (gesture d ms b, s)) = s" if "captured (d # ms) = []"
    using that gesture_path[of d ms b] by (simp add: endDrawing_cases)
  show "snd (endDrawing stringify now (b, s)) = s
        \<or> currentPath b \<noteq> [] \<and>
          strokes (snd (endDrawing stringify now (b, s))) = strokes s @ [newStroke now (currentPath b)]"
    by (simp add: endDrawing_cases)
qed

lemma captured_sample:
  "captured [(Some \<lparr>rect_left = 0, rect_top = 0, rect_width = 400, rect_height = 300\<rparr>, MouseEvent 100 150),
             (Some \<lparr>rect_left = 0, rect_top = 0, rect_width = 400, rect_height = 300\<rparr>, MouseEvent 200 150)]
   = [\<lparr>x = 1 / 4, y = 1 / 2\<rparr>, \<lparr>x = 1 / 2, y = 1 / 2\<rparr>]"
  by simp

theorem local_strokes_nonempty_ordered_witness:
  "captured [(Some \<lparr>rect_left = 0, rect_top = 0, rect_width = 400, rect_height = 300\<rparr>, MouseEvent 100 150),
             (Some \<lparr>rect_left = 0, rect_top = 0, rect_width = 400, rect_height = 300\<rparr>, MouseEvent 200 150)]
     \<noteq> []
   \<and> strokes (snd (endDrawing type_tag 1700000000000
        (gesture (Some \<lparr>rect_left = 0, rect_top = 0, rect_width = 400, rect_height = 300\<rparr>, MouseEvent 100 150)
           [(Some \<lparr>rect_left = 0, rect_top = 0, rect_width = 400, rect_height = 300\<rparr>, MouseEvent 200 150)]
           board_initial,
         (initial Map.empty)\<lparr>view := GAME\<rparr>)))
     = [newStroke 1700000000000 [\<lparr>x = 1 / 4, y = 1 / 2\<rparr>, \<lparr>x = 1 / 2, y = 1 / 2\<rparr>]]
   \<and> captured [(None, MouseEvent 100 150)] = []
   \<and> snd (endDrawing type_tag 1700000000000
        (gesture (None, MouseEvent 100 150) [] board_initial, (initial Map.empty)\<lparr>view := GAME\<rparr>))
     = (initial Map.empty)\<lparr>view := GAME\<rparr>
   \<and> view ((initial Map.empty)\<lparr>view := GAME\<rparr>) = GAME
   \<and> run type_tag Map.empty (board_initial, (initial Map.empty)\<lparr>view := GAME\<rparr>)
        [PointerDown None (MouseEvent 100 150), PointerUp 1700000000000]
      = endDrawing type_tag 1700000000000
          (gesture (None, MouseEvent 100 150) [] board_initial, (initial Map.empty)\<lparr>view := GAME\<rparr>)"
proof -
  let ?R = "Some \<lparr>rect_left = 0, rect_top = 0, rect_width = 400, rect_height = 300\<rparr>"
  let ?S = "(initial Map.empty)\<lparr>view := GAME\<rparr>"
  have n: "captured [(?R, MouseEvent 100 150), (?R, MouseEvent 200 150)] \<noteq> []"
    by (simp only: captured_sample) simp
  have e: "captured [(None, MouseEvent 100 150)] = []" by simp
  have v: "view ?S = GAME" by simp
  note t1 = local_strokes_nonempty_ordered[of "(?R, MouseEvent 100 150)" "[(?R, MouseEvent 200 150)]"
              board_initial ?S type_tag Map.empty 1700000000000]
  note t2 = local_strokes_nonempty_ordered[of "(None, MouseEvent 100 150)" "[]"
              board_initial ?S type_tag Map.empty 1700000000000]
  from t1[THEN conjunct2, THEN conjunct2, THEN conjunct1, rule_format, OF n]
  have a: "strokes (snd (endDrawing type_tag 1700000000000
             (gesture (?R, MouseEvent 100 150) [(?R, MouseEvent 200 150)] board_initial, ?S)))
           = [newStroke 1700000000000 [\<lparr>x = 1 / 4, y = 1 / 2\<rparr>, \<lparr>x = 1 / 2, y = 1 / 2\<rparr>]]"
    by (simp only: captured_sample) (simp add: initial_def)
  from t2[THEN conjunct2, THEN conjunct2, THEN conjunct2, THEN conjunct1, rule_format, OF e]
  have b: "snd (endDrawing type_tag 1700000000000
             (gesture (None, MouseEvent 100 150) [] board_initial, ?S)) = ?S" .
  from t2[THEN conjunct2, THEN conjunct1, rule_format, OF v]
  have c: "run type_tag Map.empty (board_initial, ?S)
        [PointerDown None (MouseEvent 100 150), PointerUp 1700000000000]
      = endDrawing type_tag 1700000000000 (gesture (None, MouseEvent 100 150) [] board_initial, ?S)"
    by simp
  from n a e b v c show ?thesis by blast
qed

subsection \<open>Coordinates\<close>

text \<open>
  For a pointer inside a canvas rectangle of positive size, \<^verbatim>\<open>getCoords\<close> returns
  coordinates between 0 and 1.
\<close>

lemma getCoords_inside:
  assumes "0 < rect_width r" and "0 < rect_height r"
    and "rect_left r \<le> cx" and "cx \<le> rect_left r + rect_width r"
    and "rect_top r \<le> cy" and "cy \<le> rect_top r + rect_height r"
    and "e = MouseEvent cx cy \<or> e = TouchEvent ((cx, cy) # ts)"
    and "getCoords (Some r) e = Inr (Some pt)"
  shows "0 \<le> x pt \<and> x pt \<le> 1 \<and> 0 \<le> y pt \<and> y pt \<le> 1"
  using assms by (auto simp: field_simps)

text \<open>
  Claim C10 fails on the code. A touch that began on the canvas keeps sending its move events
  to the canvas when the finger leaves it, and \<^verbatim>\<open>getCoords\<close> does not clamp: on a
  canvas at (0, 56) of 400 by 300 pixels, a touch at (500, 26) yields \<open>x = 5/4\<close> and
  \<open>y = -1/10\<close>, and the stroke that the gesture adds to the strokes list holds that point.
  The comments on \<^verbatim>\<open>Point\<close> in \<^verbatim>\<open>types.ts\<close> and on \<^verbatim>\<open>getCoords\<close> promise
  coordinates normalized to 0-1.
\<close>

theorem touch_outside_canvas_not_normalized:
  "getCoords (Some \<lparr>rect_left = 0, rect_top = 56, rect_width = 400, rect_height = 300\<rparr>)
     (TouchEvent [(500, 26)]) = Inr (Some \<lparr>x = 5 / 4, y = - (1 / 10)\<rparr>)
   \<and> strokes (snd (run type_tag Map.empty (board_initial, (initial Map.empty)\<lparr>view := GAME\<rparr>)
       [PointerDown (Some \<lparr>rect_left = 0, rect_top = 56, rect_width = 400, rect_height = 300\<rparr>)
          (TouchEvent [(200, 206)]),
        PointerMove (Some \<lparr>rect_left = 0, rect_top = 56, rect_width = 400, rect_height = 300\<rparr>)
          (TouchEvent [(500, 26)]),
        PointerUp 1700000000000]))
     = [newStroke 1700000000000 [\<lparr>x = 1 / 2, y = 1 / 2\<rparr>, \<lparr>x = 5 / 4, y = - (1 / 10)\<rparr>]]
   \<and> \<not> (5 / 4 \<le> (1::real)) \<and> \<not> (0 \<le> - (1 / 10 :: real))"
  by (simp add: run_def initial_def board_initial_def startDrawing_def moveDrawing_def
        push_coords_def endDrawing_def handleStrokeComplete_def sendSync_def)

subsection \<open>Malformed incoming messages\<close>

text \<open>
  The handler of the data channel ignores a message that does not parse, that parses to
  \<^verbatim>\<open>null\<close>, or whose type is none of the three it knows: the state is returned as it
  was.
\<close>

lemma onmessage_unparsed: "parse d = None \<Longrightarrow> onmessage parse d s = s"
  by (simp add: onmessage_def onmessage_try_def)

lemma onmessage_null: "parse d = Some JNull \<Longrightarrow> onmessage parse d s = s"
  by (simp add: onmessage_def onmessage_try_def)

lemma onmessage_unrecognized:
  assumes "parse d = Some v"
    and "field v ''type'' \<noteq> Some (JStr ''SYNC_STROKE'')"
    and "field v ''type'' \<noteq> Some (JStr ''CLEAR_BOARD'')"
    and "field v ''type'' \<noteq> Some (JStr ''PING'')"
  shows "onmessage parse d s = s"
proof (cases "getProp v ''type''")
  case (Inl e)
  with assms(1) show ?thesis by (simp add: onmessage_def onmessage_try_def)
next
  case (Inr t)
  then have "field v ''type'' = t" by (simp add: field_def)
  with assms Inr show ?thesis by (simp add: onmessage_def onmessage_try_def)
qed

text \<open>
  The host's handler catches a payload on the answer topic that does not parse: it is logged
  with \<^verbatim>\<open>console.error\<close>, and status, peer connection and suspended invocations are
  as before.
\<close>

lemma endsWith_last:
  assumes "endsWith s suf" and "suf \<noteq> []"
  shows "last s = last suf"
proof -
  from assms(1) have "drop (length s - length suf) s = suf" by (simp add: endsWith_def)
  then have "take (length s - length suf) s @ suf = s" by (metis append_take_drop_id)
  then have "last s = last (take (length s - length suf) s @ suf)" by simp
  with assms(2) show ?thesis by (simp only: last_append if_False)
qed

lemma answer_topic_only:
  assumes "endsWith tp ''/answer''"
  shows "\<not> endsWith tp ''/join''" and "\<not> endsWith tp ''/restart''"
proof -
  from endsWith_last[OF assms] have a: "last tp = CHR ''r''" by simp
  show "\<not> endsWith tp ''/join''"
  proof
    assume "endsWith tp ''/join''"
    from endsWith_last[OF this] a show False by simp
  qed
  show "\<not> endsWith tp ''/restart''"
  proof
    assume "endsWith tp ''/restart''"
    from endsWith_last[OF this] a show False by simp
  qed
qed

lemma host_malformed_answer_logged:
  assumes "endsWith tp ''/answer''" and "parse msg = None"
  shows "host_step stringify parse c (HMessage tp msg)
           = emit [Received tp msg, ConsoleError SyntaxError] c"
proof -
  have "host_peer stringify tp (emit [Received tp msg] c) = emit [Received tp msg] c"
    using answer_topic_only[OF assms(1)] by (simp add: host_peer_def)
  moreover have "host_answer parse tp msg (emit [Received tp msg] c)
                 = emit [ConsoleError SyntaxError] (emit [Received tp msg] c)"
    using assms by (simp add: host_answer_def)
  ultimately show ?thesis by (simp add: emit_def)
qed

text \<open>
  Claim C6 fails on the code in the joiner's handler, which calls \<^verbatim>\<open>JSON.parse\<close>
  outside any \<^verbatim>\<open>try\<close> block (line 390) and after \<^verbatim>\<open>setStatus\<close> (line 389). On a
  payload that is not JSON, received on the offer topic, the status text has changed and the
  \<^verbatim>\<open>SyntaxError\<close> leaves the handler as an unhandled rejection.
\<close>

theorem joiner_malformed_offer_escapes:
  "timeline (joiner_step type_tag Map.empty (snd (connectCloudJoiner ''1234'' (initial Map.empty)))
               (JMessage ''chkobba/1234/offer'' ''not json''))
     = [Received ''chkobba/1234/offer'' ''not json'', Unhandled SyntaxError]
   \<and> statusText (snd (connectCloudJoiner ''1234'' (initial Map.empty))) = ''Connecting to Cloud...''
   \<and> statusText (joiner_step type_tag Map.empty (snd (connectCloudJoiner ''1234'' (initial Map.empty)))
               (JMessage ''chkobba/1234/offer'' ''not json''))
     = ''Found Host. Processing...''"
  by (simp add: connectCloudJoiner_def initPC_def initial_def endsWith_def emit_def)

subsection \<open>Pasted codes in manual mode\<close>

lemma pasted_null:
  "decompressFromBase64 t = None \<Longrightarrow> parse ''null'' = Some JNull \<Longrightarrow>
   pasted decompressFromBase64 parse t = Some JNull"
  by (simp add: pasted_def)

text \<open>
  Claim C7. The host's connect handler returns the state unchanged when there is no peer
  connection or no pasted text. When the pasted text does not yield a description that the
  connection accepts (the parse fails, or the browser rejects what was parsed), the host's
  handler sets the error text \<^verbatim>\<open>Invalid Answer Code\<close> and leaves the peer connection and
  the status as they were, and the joiner's handler sets \<^verbatim>\<open>Invalid Host Code\<close> and its
  peer connection holds no remote description. A text that fails to decompress is such a
  text: it is parsed as \<^verbatim>\<open>null\<close>, which no connection accepts.
\<close>

theorem manual_invalid_codes:
  "(pcRef s = None \<or> remoteAnswer s = [] \<longrightarrow>
      handleManualHostConnect decompressFromBase64 parse accepts s = s)
   \<and> (pcRef s = Some p \<and> remoteAnswer s \<noteq> [] \<and>
       (\<forall>d. pasted decompressFromBase64 parse (remoteAnswer s) = Some d \<longrightarrow> \<not> fulfils accepts p d) \<longrightarrow>
      errorMsg (handleManualHostConnect decompressFromBase64 parse accepts s) = ''Invalid Answer Code''
      \<and> pcRef (handleManualHostConnect decompressFromBase64 parse accepts s) = pcRef s
      \<and> status (handleManualHostConnect decompressFromBase64 parse accepts s) = status s)
   \<and> ((\<forall>d. pasted decompressFromBase64 parse (remoteAnswer s) = Some d \<longrightarrow>
            \<not> fulfils accepts new_RTCPeerConnection d) \<longrightarrow>
      errorMsg (handleManualJoinGenerate decompressFromBase64 parse accepts answer accepts_local s)
        = ''Invalid Host Code''
      \<and> remote_of (handleManualJoinGenerate decompressFromBase64 parse accepts answer accepts_local s)
        = JNull)
   \<and> (decompressFromBase64 t = None \<and> parse ''null'' = Some JNull \<longrightarrow>
      pasted decompressFromBase64 parse t = Some JNull \<and> \<not> fulfils accepts p JNull)"
proof (intro conjI impI)
  assume "pcRef s = None \<or> remoteAnswer s = []"
  then show "handleManualHostConnect decompressFromBase64 parse accepts s = s"
    by (auto simp: handleManualHostConnect_def split: option.splits)
next
  assume h: "pcRef s = Some p \<and> remoteAnswer s \<noteq> [] \<and>
       (\<forall>d. pasted decompressFromBase64 parse (remoteAnswer s) = Some d \<longrightarrow> \<not> fulfils accepts p d)"
  let ?H = "handleManualHostConnect decompressFromBase64 parse accepts s"
  from h have "?H = s\<lparr>errorMsg := ''Invalid Answer Code''\<rparr>"
    by (auto simp: handleManualHostConnect_def split: option.splits)
  then show "errorMsg ?H = ''Invalid Answer Code''" "pcRef ?H = pcRef s" "status ?H = status s"
    by simp_all
next
  assume h: "\<forall>d. pasted decompressFromBase64 parse (remoteAnswer s) = Some d \<longrightarrow>
            \<not> fulfils accepts new_RTCPeerConnection d"
  let ?G = "handleManualJoinGenerate decompressFromBase64 parse accepts answer accepts_local s"
  from h have "?G = (initPC s)\<lparr>errorMsg := ''Invalid Host Code''\<rparr>"
    by (auto simp: handleManualJoinGenerate_def split: option.splits)
  then show "errorMsg ?G = ''Invalid Host Code''" "remote_of ?G = JNull"
    by (simp_all add: remote_of_def initPC_def new_RTCPeerConnection_def)
next
  assume "decompressFromBase64 t = None \<and> parse ''null'' = Some JNull"
  then show "pasted decompressFromBase64 parse t = Some JNull" by (simp add: pasted_null)
next
  show "\<not> fulfils accepts p JNull" by (simp add: fulfils_def)
qed

theorem manual_invalid_codes_witness:
  "errorMsg (handleManualHostConnect Map.empty [''null'' \<mapsto> JNull] (\<lambda>p d. True)
      ((initial Map.empty)\<lparr>pcRef := Some new_RTCPeerConnection, remoteAnswer := ''garbage''\<rparr>))
     = ''Invalid Answer Code''
   \<and> handleManualHostConnect Map.empty [''null'' \<mapsto> JNull] (\<lambda>p d. True)
      ((initial Map.empty)\<lparr>remoteAnswer := ''garbage''\<rparr>)
     = (initial Map.empty)\<lparr>remoteAnswer := ''garbage''\<rparr>
   \<and> errorMsg (handleManualJoinGenerate Map.empty [''null'' \<mapsto> JNull] (\<lambda>p d. True) None (\<lambda>p d. True)
      ((initial Map.empty)\<lparr>remoteAnswer := ''garbage''\<rparr>))
     = ''Invalid Host Code''
   \<and> pasted Map.empty [''null'' \<mapsto> JNull] ''garbage'' = Some JNull"
proof -
  let ?acc = "\<lambda>(p::rtc) (d::json). True"
  let ?pa = "[''null'' \<mapsto> JNull] :: parser"
  let ?dc = "Map.empty :: string \<Rightarrow> string option"
  let ?s1 = "(initial Map.empty)\<lparr>pcRef := Some new_RTCPeerConnection, remoteAnswer := ''garbage''\<rparr>"
  let ?s2 = "(initial Map.empty)\<lparr>remoteAnswer := ''garbage''\<rparr>"
  have n: "?dc ''garbage'' = None \<and> ?pa ''null'' = Some JNull" by simp
  have h1: "pcRef ?s1 = Some new_RTCPeerConnection \<and> remoteAnswer ?s1 \<noteq> [] \<and>
       (\<forall>d. pasted ?dc ?pa (remoteAnswer ?s1) = Some d \<longrightarrow> \<not> fulfils ?acc new_RTCPeerConnection d)"
    by (simp add: pasted_def fulfils_def)
  have h2: "pcRef ?s2 = None \<or> remoteAnswer ?s2 = []" by (simp add: initial_def)
  have h3: "\<forall>d. pasted ?dc ?pa (remoteAnswer ?s2) = Some d \<longrightarrow> \<not> fulfils ?acc new_RTCPeerConnection d"
    by (simp add: pasted_def fulfils_def)
  note t1 = manual_invalid_codes[of ?s1 ?dc ?pa ?acc new_RTCPeerConnection None ?acc "''garbage''"]
  note t2 = manual_invalid_codes[of ?s2 ?dc ?pa ?acc new_RTCPeerConnection None ?acc "''garbage''"]
  from t1[THEN conjunct2, THEN conjunct1, THEN mp, OF h1]
  have a: "errorMsg (handleManualHostConnect ?dc ?pa ?acc ?s1) = ''Invalid Answer Code''" by (rule conjunct1)
  from t2[THEN conjunct1, THEN mp, OF h2]
  have b: "handleManualHostConnect ?dc ?pa ?acc ?s2 = ?s2" .
  from t2[THEN conjunct2, THEN conjunct2, THEN conjunct1, THEN mp, OF h3]
  have c: "errorMsg (handleManualJoinGenerate ?dc ?pa ?acc None ?acc ?s2) = ''Invalid Host Code''" by (rule conjunct1)
  from t2[THEN conjunct2, THEN conjunct2, THEN conjunct2, THEN mp, OF n]
  have d: "pasted ?dc ?pa ''garbage'' = Some JNull" by (rule conjunct1)
  show ?thesis by (intro conjI) (rule a b c d)+
qed

end
